theory Spec2Isabelle
  imports Main "HOL-Library.Word" "HOL-Library.Char_ord" "HOL-Library.List_Lexorder"
begin

section \<open>The conversation backlog (client package, type Conversation)\<close>

subsection \<open>Data\<close>

text \<open>
  Modelled from the spec: the declaration of the rpc type \<open>Message\<close> and of its status
  enumeration is not among the sources; the spec lists the statuses
  NULL, SENDING, QUEUED, SENT, DELIVERED, READ, UNREAD, ERROR and gives the identifier as a
  32-bit unsigned value.  The code below only compares statuses with NULL, READ and UNREAD
  and identifiers for equality.
\<close>

datatype Message_Status = NULL | SENDING | QUEUED | SENT | DELIVERED | READ | UNREAD | ERROR

text \<open>The fields of \<open>ricochet.Entity\<close> that the conversation code reads.\<close>

record Entity =
  Address :: string
  IsSelf :: bool

text \<open>
  \<open>Sender\<close> and \<open>Recipient\<close> are pointers in the source; \<open>None\<close> is the nil pointer.
  \<open>Text\<close> is a Go string, a byte sequence whose \<open>len\<close> counts bytes.
\<close>

record Message =
  Sender :: "Entity option"
  Recipient :: "Entity option"
  Identifier :: "32 word"
  Text :: string
  Status :: Message_Status

text \<open>
  The conversation: \<open>identityAddress\<close> stands for \<open>c.Client.Identity.Address\<close> and
  \<open>contactAddress\<close> for \<open>c.Contact.Data.Address\<close>; the other three fields are the
  fields of the struct.
\<close>

record Conversation =
  identityAddress :: string
  contactAddress :: string
  messages :: "Message list"
  numUnread :: int
  active :: bool

definition maxMessageTextLength :: int where
  "maxMessageTextLength = 2000"

definition backlogContextNum :: int where
  "backlogContextNum = 3"

definition backlogSoftLimit :: int where
  "backlogSoftLimit = 100"

definition backlogHardLimit :: int where
  "backlogHardLimit = 200"

text \<open>The errors the conversation functions return; \<open>None\<close> of \<open>error option\<close> is nil.\<close>

datatype error =
    EntitiesIncomplete
  | InvalidSelfEntity
  | InvalidRemoteEntity
  | NullStatus
  | TextUnacceptable
  | OutboundNotMarkable
  | BackendFailure

subsection \<open>validateMessage\<close>

definition validateMessage :: "Conversation \<Rightarrow> Message \<Rightarrow> error option" where
  "validateMessage c msg =
     (case Sender msg of
        None \<Rightarrow> Some EntitiesIncomplete
      | Some sender \<Rightarrow>
          (case Recipient msg of
             None \<Rightarrow> Some EntitiesIncomplete
           | Some recipient \<Rightarrow>
               (let localEntity = (if IsSelf sender then sender else recipient);
                    remoteEntity = (if IsSelf sender then recipient else sender)
                in if \<not> IsSelf localEntity \<or>
                      (int (length (Address localEntity)) > 0 \<and>
                       Address localEntity \<noteq> identityAddress c)
                   then Some InvalidSelfEntity
                   else if IsSelf remoteEntity \<or> Address remoteEntity \<noteq> contactAddress c
                   then Some InvalidRemoteEntity
                   else if Status msg = NULL
                   then Some NullStatus
                   else if int (length (Text msg)) = 0 \<or>
                           int (length (Text msg)) > maxMessageTextLength
                   then Some TextUnacceptable
                   else None)))"

subsection \<open>recountUnread and trimBacklog\<close>

text \<open>The counting loop of \<open>recountUnread\<close>, started from 0.\<close>

definition recountUnread :: "Conversation \<Rightarrow> Conversation" where
  "recountUnread c =
     c\<lparr>numUnread := fold (\<lambda>msg n. if Status msg = UNREAD then n + 1 else n) (messages c) 0\<rparr>"

text \<open>
  The \<open>range\<close> loop of \<open>trimBacklog\<close> that computes \<open>keepIndex\<close>: \<open>n\<close> is
  \<open>len(c.messages)\<close>, \<open>i\<close> the loop index and the list the messages from index \<open>i\<close> on.
  When the loop ends without a \<open>break\<close>, \<open>keepIndex\<close> keeps its zero value.
\<close>

fun keepIndexLoop :: "int \<Rightarrow> int \<Rightarrow> Message list \<Rightarrow> int" where
  "keepIndexLoop n i [] = 0"
| "keepIndexLoop n i (message # rest) =
     (if Status message = UNREAD
      then (if i - backlogContextNum < 0 then 0 else i - backlogContextNum)
      else if n - i \<le> backlogSoftLimit then i
      else keepIndexLoop n (i + 1) rest)"

text \<open>The first \<open>if\<close> of \<open>trimBacklog\<close>: the hard limit.\<close>

definition trimHard :: "Conversation \<Rightarrow> Conversation" where
  "trimHard c =
     (if int (length (messages c)) > backlogHardLimit
      then recountUnread
             (c\<lparr>messages := drop (nat (int (length (messages c)) - backlogHardLimit)) (messages c)\<rparr>)
      else c)"

text \<open>The rest of \<open>trimBacklog\<close>: the soft limit.\<close>

definition trimSoft :: "Conversation \<Rightarrow> Conversation" where
  "trimSoft c =
     (if int (length (messages c)) \<le> backlogSoftLimit then c
      else c\<lparr>messages :=
               drop (nat (keepIndexLoop (int (length (messages c))) 0 (messages c))) (messages c)\<rparr>)"

definition trimBacklog :: "Conversation \<Rightarrow> Conversation" where
  "trimBacklog c = trimSoft (trimHard c)"

subsection \<open>MarkAsReadBefore and MarkAsRead\<close>

text \<open>The request handed to the backend by \<open>MarkAsReadBefore\<close>.\<close>

record MarkConversationReadRequest =
  ReqEntity :: "Entity option"
  LastRecvIdentifier :: "32 word"

text \<open>
  \<open>MarkAsReadBefore\<close> returns its error and the requests it dispatched to the backend.
  \<open>backendErr\<close> is the error the backend call returns (nil when it succeeds).
\<close>

definition MarkAsReadBefore ::
    "error option \<Rightarrow> Conversation \<Rightarrow> Message \<Rightarrow> error option \<times> MarkConversationReadRequest list" where
  "MarkAsReadBefore backendErr c message =
     (case validateMessage c message of
        Some err \<Rightarrow> (Some err, [])
      | None \<Rightarrow>
          (case Sender message of
             None \<Rightarrow> (Some EntitiesIncomplete, [])
           | Some sender \<Rightarrow>
               if IsSelf sender then (Some OutboundNotMarkable, [])
               else (backendErr,
                     [\<lparr>ReqEntity = Sender message, LastRecvIdentifier = Identifier message\<rparr>])))"

text \<open>
  The loop labelled \<open>findMessageId\<close> of \<open>MarkAsRead\<close>: the second argument is \<open>i + 1\<close>,
  so that the loop runs from \<open>len - 1\<close> down to 0.
\<close>

fun findMessageId :: "Message list \<Rightarrow> nat \<Rightarrow> Message option" where
  "findMessageId ms 0 = None"
| "findMessageId ms (Suc i) =
     (if Status (ms ! i) = UNREAD then Some (ms ! i)
      else if Status (ms ! i) = READ then None
      else findMessageId ms i)"

definition MarkAsRead ::
    "error option \<Rightarrow> Conversation \<Rightarrow> error option \<times> MarkConversationReadRequest list" where
  "MarkAsRead backendErr c =
     (case findMessageId (messages c) (length (messages c)) of
        Some lastRecvMsg \<Rightarrow> MarkAsReadBefore backendErr c lastRecvMsg
      | None \<Rightarrow> (None, []))"

subsection \<open>AddMessage and UpdateMessage\<close>

text \<open>
  \<open>AddMessage\<close> returns the conversation and the requests dispatched to the backend.
  Printing the message to the terminal is left out.
\<close>

definition AddMessage ::
    "error option \<Rightarrow> Conversation \<Rightarrow> Message \<Rightarrow> bool \<Rightarrow> Conversation \<times> MarkConversationReadRequest list" where
  "AddMessage backendErr c msg populating =
     (case validateMessage c msg of
        Some err \<Rightarrow> (c, [])
      | None \<Rightarrow>
          (let c1 = c\<lparr>messages := messages c @ [msg]\<rparr>;
               c2 = (if Status msg = UNREAD then c1\<lparr>numUnread := numUnread c1 + 1\<rparr> else c1);
               c3 = trimBacklog c2
           in if \<not> populating \<and> active c3
              then (c3, snd (MarkAsReadBefore backendErr c3 msg))
              else (c3, [])))"

text \<open>
  The loop of \<open>UpdateMessage\<close>, from \<open>len - 1\<close> down to 0 (the last argument is \<open>i + 1\<close>).
  The result \<open>None\<close> is the panic of dereferencing a nil \<open>Sender\<close> of a stored message.
\<close>

fun updateLoop :: "Conversation \<Rightarrow> Message \<Rightarrow> Entity \<Rightarrow> nat \<Rightarrow> Conversation option" where
  "updateLoop c updatedMsg updSender 0 = Some c"
| "updateLoop c updatedMsg updSender (Suc i) =
     (case Sender (messages c ! i) of
        None \<Rightarrow> None
      | Some sender \<Rightarrow>
          if IsSelf sender \<noteq> IsSelf updSender \<or>
             Identifier (messages c ! i) \<noteq> Identifier updatedMsg
          then updateLoop c updatedMsg updSender i
          else Some ((if Status (messages c ! i) = UNREAD \<and> Status updatedMsg \<noteq> UNREAD
                      then c\<lparr>numUnread := numUnread c - 1\<rparr> else c)
                     \<lparr>messages := (messages c)[i := updatedMsg]\<rparr>))"

definition UpdateMessage :: "Conversation \<Rightarrow> Message \<Rightarrow> Conversation option" where
  "UpdateMessage c updatedMsg =
     (case validateMessage c updatedMsg of
        Some err \<Rightarrow> Some c
      | None \<Rightarrow>
          (case Sender updatedMsg of
             None \<Rightarrow> Some c
           | Some updSender \<Rightarrow> updateLoop c updatedMsg updSender (length (messages c))))"

section \<open>The contact and its connection loop (core package, type Contact)\<close>

subsection \<open>Data\<close>

datatype Contact_Status = UNKNOWN | OFFLINE | ONLINE | REQUEST | REJECTED

text \<open>
  The persisted contact.  Its declaration (\<open>ConfigContact\<close>, \<open>ConfigContactRequest\<close>) is
  not among the sources; the fields are those the contact code reads and writes, which are
  also the persisted contact fields the spec lists.  \<open>ReqMessage\<close> is the field
  \<open>Request.Message\<close>.
\<close>

record ConfigContactRequest =
  Pending :: bool
  MyNickname :: string
  ReqMessage :: string
  WhenDelivered :: string
  WhenRejected :: string
  RemoteError :: string

record ConfigContact =
  Hostname :: string
  Nickname :: string
  WhenCreated :: string
  LastConnected :: string
  Request :: ConfigContactRequest

text \<open>
  The fields of the protocol library's \<open>OpenConnection\<close> that the contact code reads.
  Connections are shared objects: the contact, the loop and the protocol handler hold
  pointers to them.  A pointer is a reference into the store \<open>conns\<close> of the agent state.
\<close>

record OpenConnection =
  Client :: bool
  IsAuthed :: bool
  Closed :: bool
  MyHostname :: string
  OtherHostname :: string

type_synonym connRef = nat

text \<open>
  The contact.  \<open>connection = None\<close> is the nil pointer; \<open>connChannelOpen\<close> says that
  \<open>connChannel\<close> is not nil; \<open>timeConnected\<close> is an instant in nanoseconds.
\<close>

record Contact =
  contactId :: int
  cdata :: ConfigContact
  status :: Contact_Status
  connEnabled :: bool
  connection :: "connRef option"
  connChannelOpen :: bool
  timeConnected :: int
  outboundConnAuthKnown :: bool

text \<open>What the contact code does to its collaborators, in the order it does it.\<close>

datatype effect =
    SpawnOutbound
  | CancelOutbound
  | SendContactRequest connRef nat string string
  | PublishUpdate Contact_Status ConfigContact
  | SendQueuedMessages

text \<open>
  The state the contact code works on: the contact, the store of connections, the
  contacts of the configuration (keyed by the contact id, which stands for the key
  \<open>strconv.Itoa(c.id)\<close>) and the effects so far.
\<close>

record agent =
  contact :: Contact
  conns :: "connRef \<Rightarrow> OpenConnection"
  configContacts :: "int \<rightharpoonup> ConfigContact"
  effects :: "effect list"

text \<open>
  A reading of the clock: the instant in nanoseconds and its RFC 3339 rendering.
\<close>

record clock =
  now :: int
  nowRFC3339 :: string

definition second :: int where
  "second = 1000000000"

datatype connError =
    DuplicateAssignment
  | InvalidState
  | HostnameMismatch
  | NotKnownContact
  | UsingExisting

text \<open>The messages the loop receives in its \<open>select\<close>.\<close>

datatype loopEvent =
    ChanClosed
  | ChanNil
  | ChanConn connRef
  | ConnClosedSignal

subsection \<open>Operations\<close>

text \<open>
  Modelled from the spec: \<open>OpenConnection.Close\<close> belongs to the protocol library, which
  is not among the sources; a closed session has its closed flag set.
\<close>

definition closeConn :: "connRef \<Rightarrow> agent \<Rightarrow> agent" where
  "closeConn r w = w\<lparr>conns := (conns w)(r := (conns w r)\<lparr>Closed := True\<rparr>)\<rparr>"

definition shouldMakeOutboundConnections :: "Contact \<Rightarrow> bool" where
  "shouldMakeOutboundConnections c =
     (if status c = REJECTED then False else connEnabled c)"

definition StartConnection :: "agent \<Rightarrow> agent" where
  "StartConnection w =
     (if connEnabled (contact w) then w
      else w\<lparr>contact := (contact w)\<lparr>connEnabled := True, connChannelOpen := True\<rparr>\<rparr>)"

text \<open>
  \<open>shouldReplaceConnection\<close>; \<open>t\<close> is the instant at which \<open>time.Since\<close> reads the clock.
  The comparison of the two hostnames is Go's comparison of strings, bytewise
  lexicographic.
\<close>

definition shouldReplaceConnection :: "int \<Rightarrow> agent \<Rightarrow> connRef \<Rightarrow> bool" where
  "shouldReplaceConnection t w conn =
     (case connection (contact w) of
        None \<Rightarrow> True
      | Some cur \<Rightarrow>
          if Closed (conns w cur) then True
          else if Client (conns w cur) = Client (conns w conn) then True
          else if t - timeConnected (contact w) > 30 * second then True
          else if (MyHostname (conns w conn) < OtherHostname (conns w conn))
                    = Client (conns w conn) then True
          else False)"

text \<open>
  \<open>updateContactRequest\<close> (the mutex is held by the caller); it returns whether the
  request channel stays open.
\<close>

definition updateContactRequest :: "clock \<Rightarrow> string \<Rightarrow> agent \<Rightarrow> bool \<times> agent" where
  "updateContactRequest clk st w =
     (let c = contact w;
          d = cdata c;
          rq = Request d;
          (re, c') =
            (if st = ''Pending''
             then (True, c\<lparr>cdata := d\<lparr>Request := rq\<lparr>WhenDelivered := nowRFC3339 clk\<rparr>\<rparr>\<rparr>)
             else if st = ''Accepted''
             then (False,
                   c\<lparr>cdata := d\<lparr>Request :=
                                  \<lparr>Pending = False, MyNickname = [], ReqMessage = [],
                                   WhenDelivered = [], WhenRejected = [], RemoteError = []\<rparr>\<rparr>,
                     status := (if connection c \<noteq> None then ONLINE else UNKNOWN)\<rparr>)
             else if st = ''Rejected''
             then (False, c\<lparr>cdata := d\<lparr>Request := rq\<lparr>WhenRejected := nowRFC3339 clk\<rparr>\<rparr>\<rparr>)
             else if st = ''Error''
             then (False,
                   c\<lparr>cdata := d\<lparr>Request := rq\<lparr>WhenRejected := nowRFC3339 clk,
                                                 RemoteError := ''error occurred''\<rparr>\<rparr>\<rparr>)
             else (False, c))
      in (re, w\<lparr>contact := c',
                configContacts := (configContacts w)(contactId c' \<mapsto> cdata c')\<rparr>))"

text \<open>
  The part of \<open>setConnection\<close> after its checks: the current connection, if there is one,
  is closed and cleared, then the new one is assigned.
\<close>

definition adoptConnection :: "clock \<Rightarrow> agent \<Rightarrow> connRef \<Rightarrow> agent" where
  "adoptConnection clk w conn =
     (let w1 = (case connection (contact w) of
                  None \<Rightarrow> w
                | Some cur \<Rightarrow> (closeConn cur w)\<lparr>contact := (contact w)\<lparr>connection := None\<rparr>\<rparr>);
          w2 = w1\<lparr>contact := (contact w1)\<lparr>connection := Some conn\<rparr>\<rparr>;
          w3 = (if Pending (Request (cdata (contact w2)))
                then (if Client (conns w2 conn) \<and> \<not> outboundConnAuthKnown (contact w2)
                      then w2\<lparr>effects := effects w2 @
                                 [SendContactRequest conn 5
                                    (MyNickname (Request (cdata (contact w2))))
                                    (ReqMessage (Request (cdata (contact w2))))]\<rparr>
                      else snd (updateContactRequest clk ''Accepted'' w2))
                else w2\<lparr>contact := (contact w2)\<lparr>status := ONLINE\<rparr>\<rparr>);
          c4 = (contact w3)\<lparr>timeConnected := now clk,
                             cdata := (cdata (contact w3))\<lparr>LastConnected := nowRFC3339 clk\<rparr>\<rparr>;
          w4 = w3\<lparr>contact := c4,
                   configContacts := (configContacts w3)(contactId c4 \<mapsto> cdata c4)\<rparr>
      in w4\<lparr>effects := effects w4 @ [PublishUpdate (status c4) (cdata c4), SendQueuedMessages]\<rparr>)"

text \<open>
  \<open>setConnection\<close>.  The result \<open>None\<close> is the panic of the slice \<open>c.data.Hostname[0:16]\<close>
  on a hostname shorter than 16 bytes; otherwise the error (nil is \<open>None\<close>) and the state.
\<close>

definition setConnection :: "clock \<Rightarrow> agent \<Rightarrow> connRef \<Rightarrow> (connError option \<times> agent) option" where
  "setConnection clk w conn =
     (if Some conn = connection (contact w) then Some (Some DuplicateAssignment, w)
      else if \<not> IsAuthed (conns w conn) \<or> Closed (conns w conn)
      then Some (Some InvalidState, closeConn conn w)
      else if length (Hostname (cdata (contact w))) < 16 then None
      else if take 16 (Hostname (cdata (contact w))) \<noteq> OtherHostname (conns w conn)
      then Some (Some HostnameMismatch, closeConn conn w)
      else if Client (conns w conn) \<and> \<not> outboundConnAuthKnown (contact w) \<and>
              \<not> Pending (Request (cdata (contact w)))
      then Some (Some NotKnownContact, closeConn conn w)
      else if connection (contact w) \<noteq> None \<and> \<not> shouldReplaceConnection (now clk) w conn
      then Some (Some UsingExisting, closeConn conn w)
      else Some (None, adoptConnection clk w conn))"

text \<open>\<open>clearConnection\<close>; \<open>ifConn = None\<close> is the nil argument.\<close>

definition clearConnection :: "clock \<Rightarrow> agent \<Rightarrow> connRef option \<Rightarrow> bool \<times> agent" where
  "clearConnection clk w ifConn =
     (case connection (contact w) of
        None \<Rightarrow> (False, w)
      | Some conn \<Rightarrow>
          if ifConn \<noteq> None \<and> connection (contact w) \<noteq> ifConn then (False, w)
          else
            (let c1 = (contact w)\<lparr>connection := None, status := OFFLINE,
                                   cdata := (cdata (contact w))\<lparr>LastConnected := nowRFC3339 clk\<rparr>\<rparr>;
                 w1 = w\<lparr>contact := c1,
                        configContacts := (configContacts w)(contactId c1 \<mapsto> cdata c1)\<rparr>;
                 w2 = (if \<not> Closed (conns w1 conn) then closeConn conn w1 else w1)
             in (True, w2\<lparr>effects := effects w2 @ [PublishUpdate (status c1) (cdata c1)]\<rparr>)))"

text \<open>
  \<open>OnConnectionAuthenticated\<close> returns the state and the connection it sent on
  \<open>connChannel\<close>.  When the channel is nil the connection is closed, the function goes on
  and its send blocks for ever: nothing is delivered.
\<close>

definition OnConnectionAuthenticated :: "agent \<Rightarrow> connRef \<Rightarrow> bool \<Rightarrow> agent \<times> connRef option" where
  "OnConnectionAuthenticated w conn knownContact =
     (let w1 = (if \<not> connChannelOpen (contact w) then closeConn conn w else w);
          w2 = (if Client (conns w1 conn)
                then w1\<lparr>contact := (contact w1)\<lparr>outboundConnAuthKnown := knownContact\<rparr>\<rparr>
                else w1)
      in (w2, if connChannelOpen (contact w) then Some conn else None))"

subsection \<open>The connection loop\<close>

text \<open>
  The head of an iteration of \<open>contactConnection\<close>: the only place where an outbound
  connector is spawned.
\<close>

definition loopHead :: "agent \<Rightarrow> agent" where
  "loopHead w =
     (if connection (contact w) = None \<and> shouldMakeOutboundConnections (contact w)
      then w\<lparr>effects := effects w @ [SpawnOutbound]\<rparr>
      else w)"

text \<open>
  The \<open>select\<close> of an iteration, on the message received.  The result \<open>None\<close> is a
  panic; otherwise whether the loop goes on, and the state.  Leaving the loop runs
  \<open>clearConnection(nil)\<close>.
\<close>

definition loopBody :: "clock \<Rightarrow> agent \<Rightarrow> loopEvent \<Rightarrow> (bool \<times> agent) option" where
  "loopBody clk w ev =
     (case ev of
        ChanClosed \<Rightarrow> Some (False, snd (clearConnection clk w None))
      | ChanNil \<Rightarrow> Some (True, w)
      | ChanConn conn \<Rightarrow>
          (case setConnection clk w conn of
             None \<Rightarrow> None
           | Some (None, w') \<Rightarrow> Some (True, w')
           | Some (Some err, w') \<Rightarrow>
               Some (True,
                     if \<not> Closed (conns w' conn) \<and> Some conn \<noteq> connection (contact w')
                     then closeConn conn w' else w'))
      | ConnClosedSignal \<Rightarrow> Some (True, snd (clearConnection clk w None)))"

text \<open>
  One iteration: the head, then the cancellation of the connector the head spawned (every
  branch of the \<open>select\<close> starts with it), then the branch.
\<close>

definition contactConnectionStep :: "clock \<Rightarrow> agent \<Rightarrow> loopEvent \<Rightarrow> (bool \<times> agent) option" where
  "contactConnectionStep clk w ev =
     (let w1 = loopHead w;
          w2 = (if connection (contact w) = None \<and> shouldMakeOutboundConnections (contact w)
                then w1\<lparr>effects := effects w1 @ [CancelOutbound]\<rparr> else w1)
      in loopBody clk w2 ev)"

text \<open>
  The loop on the messages it receives, each with the reading of the clock at that
  time.  When the messages run out the loop is waiting in its \<open>select\<close>, after the head.
\<close>

fun contactConnection :: "agent \<Rightarrow> (clock \<times> loopEvent) list \<Rightarrow> agent option" where
  "contactConnection w [] = Some (loopHead w)"
| "contactConnection w ((clk, ev) # evs) =
     (case contactConnectionStep clk w ev of
        None \<Rightarrow> None
      | Some (goOn, w') \<Rightarrow> if goOn then contactConnection w' evs else Some w')"

section \<open>Statements of the specification and sample states\<close>

subsection \<open>Notions the specification uses\<close>

text \<open>
  The label of the endpoint that dialed a session, as the endpoint holding the session
  sees it: its own label for a session it dialed, the peer's label for one it accepted.
\<close>

definition dialedBy :: "OpenConnection \<Rightarrow> string" where
  "dialedBy s = (if Client s then MyHostname s else OtherHostname s)"

text \<open>The number of outbound connectors spawned, read off the effects.\<close>

definition spawns :: "effect list \<Rightarrow> nat" where
  "spawns es = length (filter (\<lambda>e. e = SpawnOutbound) es)"

text \<open>
  The entities of a message are well formed for a conversation: both are present, exactly
  one of them is the local side, the local side carries no address or the identity's address,
  and the remote side carries the contact's address.
\<close>

definition entitiesWellFormed :: "Conversation \<Rightarrow> Message \<Rightarrow> bool" where
  "entitiesWellFormed c msg =
     (case Sender msg of
        None \<Rightarrow> False
      | Some s \<Rightarrow>
          (case Recipient msg of
             None \<Rightarrow> False
           | Some r \<Rightarrow>
               if IsSelf s
               then (Address s = [] \<or> Address s = identityAddress c)
                    \<and> \<not> IsSelf r \<and> Address r = contactAddress c
               else IsSelf r \<and> (Address r = [] \<or> Address r = identityAddress c)
                    \<and> Address s = contactAddress c))"

text \<open>
  The scan of \<open>MarkAsRead\<close> as the specification words it, to be compared with
  \<open>findMessageId\<close>: from the newest message to the oldest, it stops at the first message
  sent by the local side or with status READ, and selects the first UNREAD message.
\<close>

definition sentBySelf :: "Message \<Rightarrow> bool" where
  "sentBySelf m = (case Sender m of None \<Rightarrow> False | Some s \<Rightarrow> IsSelf s)"

fun findMessageId_spec :: "Message list \<Rightarrow> nat \<Rightarrow> Message option" where
  "findMessageId_spec ms 0 = None"
| "findMessageId_spec ms (Suc i) =
     (if sentBySelf (ms ! i) then None
      else if Status (ms ! i) = UNREAD then Some (ms ! i)
      else if Status (ms ! i) = READ then None
      else findMessageId_spec ms i)"

definition MarkAsRead_spec ::
    "error option \<Rightarrow> Conversation \<Rightarrow> error option \<times> MarkConversationReadRequest list" where
  "MarkAsRead_spec backendErr c =
     (case findMessageId_spec (messages c) (length (messages c)) of
        Some lastRecvMsg \<Rightarrow>
          (backendErr, [\<lparr>ReqEntity = Sender lastRecvMsg,
                         LastRecvIdentifier = Identifier lastRecvMsg\<rparr>])
      | None \<Rightarrow> (None, []))"

subsection \<open>Sample conversations\<close>

text \<open>
  An empty conversation between the identity \<open>aaaaaaaaaaaaaaaa\<close> and the contact
  \<open>bbbbbbbbbbbbbbbb\<close>, a message received from the contact and a message sent to it.
\<close>

definition testConv :: Conversation where
  "testConv = \<lparr>identityAddress = ''ricochet:aaaaaaaaaaaaaaaa'',
               contactAddress = ''ricochet:bbbbbbbbbbbbbbbb'',
               messages = [], numUnread = 0, active = False\<rparr>"

definition inboundMsg :: "32 word \<Rightarrow> Message_Status \<Rightarrow> Message" where
  "inboundMsg i st =
     \<lparr>Sender = Some \<lparr>Address = ''ricochet:bbbbbbbbbbbbbbbb'', IsSelf = False\<rparr>,
      Recipient = Some \<lparr>Address = ''ricochet:aaaaaaaaaaaaaaaa'', IsSelf = True\<rparr>,
      Identifier = i, Text = ''hi'', Status = st\<rparr>"

definition outboundMsg :: "32 word \<Rightarrow> Message_Status \<Rightarrow> Message" where
  "outboundMsg i st =
     \<lparr>Sender = Some \<lparr>Address = [], IsSelf = True\<rparr>,
      Recipient = Some \<lparr>Address = ''ricochet:bbbbbbbbbbbbbbbb'', IsSelf = False\<rparr>,
      Identifier = i, Text = ''hi'', Status = st\<rparr>"

text \<open>
  Backlogs that appends can build: 100 messages with the only UNREAD one at index 50,
  150 messages with the only UNREAD one at index 10, 200 UNREAD messages, and one UNREAD
  message followed by 199 READ ones.
\<close>

definition backlog100 :: Conversation where
  "backlog100 = testConv\<lparr>messages := replicate 50 (inboundMsg 1 READ) @ [inboundMsg 2 UNREAD]
                                        @ replicate 49 (inboundMsg 3 READ),
                          numUnread := 1\<rparr>"

definition backlog150 :: Conversation where
  "backlog150 = testConv\<lparr>messages := replicate 10 (inboundMsg 1 READ) @ [inboundMsg 2 UNREAD]
                                        @ replicate 139 (inboundMsg 3 READ),
                          numUnread := 1\<rparr>"

definition unread200 :: Conversation where
  "unread200 = testConv\<lparr>messages := map (\<lambda>i. inboundMsg (of_nat i) UNREAD) [0..<200],
                          numUnread := 200\<rparr>"

definition unreadThenRead200 :: Conversation where
  "unreadThenRead200 =
     testConv\<lparr>messages := inboundMsg 0 UNREAD # replicate 199 (inboundMsg 1 READ),
              numUnread := 1\<rparr>"

text \<open>Short backlogs for \<open>UpdateMessage\<close> and \<open>MarkAsRead\<close>.\<close>

definition readOne :: Conversation where
  "readOne = testConv\<lparr>messages := [inboundMsg 5 READ]\<rparr>"

definition unreadBeforeSent :: Conversation where
  "unreadBeforeSent = testConv\<lparr>messages := [inboundMsg 7 UNREAD, outboundMsg 9 DELIVERED],
                                 numUnread := 1\<rparr>"

definition readUnreadSent :: Conversation where
  "readUnreadSent =
     testConv\<lparr>messages := [inboundMsg 6 READ, inboundMsg 7 UNREAD, outboundMsg 9 SENT],
              numUnread := 1\<rparr>"

subsection \<open>Sample contacts\<close>

text \<open>
  The contact \<open>bbbbbbbbbbbbbbbb\<close> as the endpoint \<open>aaaaaaaaaaaaaaaa\<close> holds it, with
  the outbound connection 1 and the inbound connection 2; the same contact in a duel
  (the inbound connection is current, the outbound one arrives) and rejected; and the
  endpoint \<open>bbbbbbbbbbbbbbbb\<close> in the same duel, where its own outbound connection 1 is
  current and the inbound connection 2 arrives.
\<close>

definition noRequest :: ConfigContactRequest where
  "noRequest = \<lparr>Pending = False, MyNickname = [], ReqMessage = [],
                WhenDelivered = [], WhenRejected = [], RemoteError = []\<rparr>"

definition testContact :: Contact where
  "testContact =
     \<lparr>contactId = 1,
      cdata = \<lparr>Hostname = ''bbbbbbbbbbbbbbbb.onion'', Nickname = ''bob'',
               WhenCreated = ''2016-10-01T00:00:00Z'', LastConnected = [],
               Request = noRequest\<rparr>,
      status = UNKNOWN, connEnabled = True, connection = None, connChannelOpen = True,
      timeConnected = 0, outboundConnAuthKnown = False\<rparr>"

definition outboundConn :: OpenConnection where
  "outboundConn = \<lparr>Client = True, IsAuthed = True, Closed = False,
                   MyHostname = ''aaaaaaaaaaaaaaaa'', OtherHostname = ''bbbbbbbbbbbbbbbb''\<rparr>"

definition inboundConn :: OpenConnection where
  "inboundConn = \<lparr>Client = False, IsAuthed = True, Closed = False,
                  MyHostname = ''aaaaaaaaaaaaaaaa'', OtherHostname = ''bbbbbbbbbbbbbbbb''\<rparr>"

definition testAgent :: agent where
  "testAgent =
     \<lparr>contact = testContact,
      conns = (\<lambda>r. if r = 1 then outboundConn else inboundConn),
      configContacts = [1 \<mapsto> cdata testContact],
      effects = []\<rparr>"

definition testClock :: clock where
  "testClock = \<lparr>now = 100 * second, nowRFC3339 = ''2016-10-01T00:01:40Z''\<rparr>"

definition duelAgent :: agent where
  "duelAgent =
     testAgent\<lparr>contact := testContact\<lparr>status := ONLINE, connection := Some 2,
                                       timeConnected := 95 * second,
                                       outboundConnAuthKnown := True\<rparr>\<rparr>"

definition rejectedAgent :: agent where
  "rejectedAgent =
     testAgent\<lparr>contact := testContact\<lparr>status := REJECTED, connEnabled := False,
                                       connChannelOpen := False,
                                       cdata := (cdata testContact)\<lparr>Request :=
                                         noRequest\<lparr>Pending := True,
                                                   WhenRejected := ''2016-10-01T00:00:30Z''\<rparr>\<rparr>\<rparr>\<rparr>"

definition peerAgent :: agent where
  "peerAgent =
     \<lparr>contact = testContact\<lparr>cdata := (cdata testContact)\<lparr>Hostname := ''aaaaaaaaaaaaaaaa.onion'',
                                                            Nickname := ''alice''\<rparr>,
                              status := ONLINE, connection := Some 1,
                              timeConnected := 95 * second,
                              outboundConnAuthKnown := True\<rparr>,
      conns = (\<lambda>r. if r = 1
                   then outboundConn\<lparr>MyHostname := ''bbbbbbbbbbbbbbbb'',
                                     OtherHostname := ''aaaaaaaaaaaaaaaa''\<rparr>
                   else inboundConn\<lparr>MyHostname := ''bbbbbbbbbbbbbbbb'',
                                    OtherHostname := ''aaaaaaaaaaaaaaaa''\<rparr>),
      configContacts = Map.empty,
      effects = []\<rparr>"

section \<open>Properties of the backlog\<close>

subsection \<open>Counting and trimming\<close>

lemma fold_count_unread:
  "fold (\<lambda>msg n. if Status msg = UNREAD then n + 1 else n) ms k
     = k + int (length (filter (\<lambda>m. Status m = UNREAD) ms))"
  by (induction ms arbitrary: k) auto

lemma numUnread_recountUnread:
  "numUnread (recountUnread c) = int (length (filter (\<lambda>m. Status m = UNREAD) (messages c)))"
  by (simp add: recountUnread_def fold_count_unread)

lemma messages_recountUnread: "messages (recountUnread c) = messages c"
  by (simp add: recountUnread_def)

lemma keepIndexLoop_nonneg: "0 \<le> i \<Longrightarrow> 0 \<le> keepIndexLoop n i ms"
  by (induction ms arbitrary: i) (auto simp: backlogContextNum_def)

text \<open>The loop never moves \<open>keepIndex\<close> past an UNREAD message.\<close>

lemma keepIndexLoop_keeps_unread:
  "0 \<le> i \<Longrightarrow> filter (\<lambda>m. Status m = UNREAD) (drop (nat (keepIndexLoop n i ms - i)) ms)
     = filter (\<lambda>m. Status m = UNREAD) ms"
proof (induction ms arbitrary: i)
  case Nil
  show ?case by simp
next
  case (Cons m rest)
  show ?case
  proof (cases "Status m = UNREAD")
    case True
    then show ?thesis using Cons.prems by (simp add: backlogContextNum_def)
  next
    case notU: False
    show ?thesis
    proof (cases "n - i \<le> backlogSoftLimit")
      case True
      with notU show ?thesis by simp
    next
      case False
      let ?k = "keepIndexLoop n (i + 1) rest"
      have k: "keepIndexLoop n i (m # rest) = ?k" using notU False by simp
      show ?thesis
      proof (cases "?k \<le> i")
        case True
        then show ?thesis using k by simp
      next
        case gt: False
        then have "nat (?k - i) = Suc (nat (?k - (i + 1)))" by simp
        then show ?thesis using k notU Cons.IH [of "i + 1"] Cons.prems by simp
      qed
    qed
  qed
qed

text \<open>
  The two ways the loop ends: at the first UNREAD message, when every index before it
  leaves more than the soft limit behind, or at the index that leaves exactly the soft limit.
\<close>

lemma keepIndexLoop_unread_first:
  "\<lbrakk>list_all (\<lambda>x. Status x \<noteq> UNREAD) pre; Status m = UNREAD;
    backlogSoftLimit \<le> n - (i + int (length pre))\<rbrakk>
   \<Longrightarrow> keepIndexLoop n i (pre @ m # post) = max 0 (i + int (length pre) - backlogContextNum)"
proof (induction pre arbitrary: i)
  case Nil
  then show ?case by (simp add: max_def)
next
  case (Cons x pre)
  have "\<not> n - i \<le> backlogSoftLimit" using Cons.prems(3) by simp
  moreover have "Status x \<noteq> UNREAD" using Cons.prems(1) by simp
  ultimately have "keepIndexLoop n i ((x # pre) @ m # post) = keepIndexLoop n (i + 1) (pre @ m # post)"
    by simp
  also have "\<dots> = max 0 (i + 1 + int (length pre) - backlogContextNum)"
    using Cons.prems by (intro Cons.IH) simp_all
  finally show ?case by (simp add: add.commute add.left_commute)
qed

lemma keepIndexLoop_limit_first:
  "\<lbrakk>list_all (\<lambda>x. Status x \<noteq> UNREAD) pre; Status m \<noteq> UNREAD;
    n - (i + int (length pre)) = backlogSoftLimit\<rbrakk>
   \<Longrightarrow> keepIndexLoop n i (pre @ m # post) = i + int (length pre)"
proof (induction pre arbitrary: i)
  case Nil
  then show ?case by simp
next
  case (Cons x pre)
  have "\<not> n - i \<le> backlogSoftLimit" using Cons.prems(3) by simp
  moreover have "Status x \<noteq> UNREAD" using Cons.prems(1) by simp
  ultimately have "keepIndexLoop n i ((x # pre) @ m # post) = keepIndexLoop n (i + 1) (pre @ m # post)"
    by simp
  also have "\<dots> = i + 1 + int (length pre)"
    using Cons.prems by (intro Cons.IH) simp_all
  finally show ?case by simp
qed

lemma keepIndexLoop_first_unread:
  assumes n: "100 < length ms" and u: "u < length ms" and st: "Status (ms ! u) = UNREAD"
    and first: "list_all (\<lambda>m. Status m \<noteq> UNREAD) (take u ms)"
  shows "keepIndexLoop (int (length ms)) 0 ms =
           (if u + 100 \<le> length ms then max 0 (int u - 3) else int (length ms) - 100)"
proof (cases "u + 100 \<le> length ms")
  case True
  have dec: "ms = take u ms @ ms ! u # drop (Suc u) ms"
    using u by (simp add: id_take_nth_drop)
  have "keepIndexLoop (int (length ms)) 0 (take u ms @ ms ! u # drop (Suc u) ms)
          = max 0 (0 + int (length (take u ms)) - backlogContextNum)"
    using first st True u
    by (intro keepIndexLoop_unread_first) (simp_all add: backlogSoftLimit_def)
  then show ?thesis using dec True u by (simp add: backlogContextNum_def min_def)
next
  case False
  define k where "k = length ms - 100"
  have k: "k < u" "k < length ms" "int (length ms) - int k = 100"
    using False n u by (simp_all add: k_def)
  have dec: "ms = take k ms @ ms ! k # drop (Suc k) ms"
    using k by (simp add: id_take_nth_drop)
  have pre: "list_all (\<lambda>m. Status m \<noteq> UNREAD) (take k ms)"
  proof -
    have "take k ms = take k (take u ms)" using k by (simp add: min_def)
    then show ?thesis using first by (metis list_all_iff in_set_takeD)
  qed
  have mid: "Status (ms ! k) \<noteq> UNREAD"
  proof -
    have "ms ! k \<in> set (take u ms)" using k u by (auto simp: in_set_conv_nth)
    then show ?thesis using first by (simp add: list_all_iff)
  qed
  have "keepIndexLoop (int (length ms)) 0 (take k ms @ ms ! k # drop (Suc k) ms)
          = 0 + int (length (take k ms))"
    using pre mid k by (intro keepIndexLoop_limit_first) (simp_all add: backlogSoftLimit_def)
  then show ?thesis using dec False k by (simp add: k_def min_def)
qed

lemma keepIndexLoop_no_unread:
  assumes n: "100 < length ms" and none: "list_all (\<lambda>m. Status m \<noteq> UNREAD) ms"
  shows "keepIndexLoop (int (length ms)) 0 ms = int (length ms) - 100"
proof -
  define k where "k = length ms - 100"
  have k: "k < length ms" "int (length ms) - int k = 100" using n by (simp_all add: k_def)
  have dec: "ms = take k ms @ ms ! k # drop (Suc k) ms"
    using k by (simp add: id_take_nth_drop)
  have pre: "list_all (\<lambda>m. Status m \<noteq> UNREAD) (take k ms)"
    using none by (metis list_all_iff in_set_takeD)
  have mid: "Status (ms ! k) \<noteq> UNREAD" using none k by (simp add: list_all_iff)
  have "keepIndexLoop (int (length ms)) 0 (take k ms @ ms ! k # drop (Suc k) ms)
          = 0 + int (length (take k ms))"
    using pre mid k by (intro keepIndexLoop_limit_first) (simp_all add: backlogSoftLimit_def)
  then show ?thesis using dec k by (simp add: k_def min_def)
qed

lemma length_messages_trimHard:
  "length (messages (trimHard c)) = min (length (messages c)) 200"
  by (auto simp: trimHard_def backlogHardLimit_def messages_recountUnread)

lemma messages_trimHard:
  "messages (trimHard c) = drop (length (messages c) - 200) (messages c)"
  by (auto simp: trimHard_def backlogHardLimit_def messages_recountUnread nat_diff_distrib)

lemma trimHard_id: "length (messages c) \<le> 200 \<Longrightarrow> trimHard c = c"
  by (simp add: trimHard_def backlogHardLimit_def)

lemma messages_trimSoft:
  "messages (trimSoft c) =
     (if length (messages c) \<le> 100 then messages c
      else drop (nat (keepIndexLoop (int (length (messages c))) 0 (messages c))) (messages c))"
  by (simp add: trimSoft_def backlogSoftLimit_def)

lemma numUnread_trimSoft: "numUnread (trimSoft c) = numUnread c"
  by (simp add: trimSoft_def)

lemma trimSoft_keeps_unread:
  "filter (\<lambda>m. Status m = UNREAD) (messages (trimSoft c))
     = filter (\<lambda>m. Status m = UNREAD) (messages c)"
  using keepIndexLoop_keeps_unread [of 0 "int (length (messages c))" "messages c"]
  by (simp add: messages_trimSoft)

lemma length_messages_trimSoft: "length (messages (trimSoft c)) \<le> length (messages c)"
  by (simp add: messages_trimSoft)

lemma trimSoft_no_unread:
  assumes "list_all (\<lambda>m. Status m \<noteq> UNREAD) (messages c)"
  shows "length (messages (trimSoft c)) \<le> 100"
proof (cases "length (messages c) \<le> 100")
  case True
  then show ?thesis by (simp add: messages_trimSoft)
next
  case False
  then have "keepIndexLoop (int (length (messages c))) 0 (messages c) = int (length (messages c)) - 100"
    using assms by (intro keepIndexLoop_no_unread) simp_all
  then show ?thesis using False by (simp add: messages_trimSoft)
qed

lemma no_unread_filter:
  "list_all (\<lambda>m. Status m \<noteq> UNREAD) ms = (filter (\<lambda>m. Status m = UNREAD) ms = [])"
  by (induction ms) auto

lemma messages_trimBacklog:
  "messages (trimBacklog c) =
     (if length (drop (length (messages c) - 200) (messages c)) \<le> 100
      then drop (length (messages c) - 200) (messages c)
      else drop (nat (keepIndexLoop
                        (int (length (drop (length (messages c) - 200) (messages c)))) 0
                        (drop (length (messages c) - 200) (messages c))))
             (drop (length (messages c) - 200) (messages c)))"
  unfolding trimBacklog_def messages_trimSoft messages_trimHard by (rule refl)

lemma messages_trimBacklog_cong:
  "messages c = messages d \<Longrightarrow> messages (trimBacklog c) = messages (trimBacklog d)"
  by (simp only: messages_trimBacklog)

lemma messages_trimBacklog_first_unread:
  assumes n: "100 < length (messages c)" "length (messages c) \<le> 200"
    and u: "u < length (messages c)" "Status (messages c ! u) = UNREAD"
    and first: "list_all (\<lambda>m. Status m \<noteq> UNREAD) (take u (messages c))"
  shows "messages (trimBacklog c) =
           drop (if u + 100 \<le> length (messages c) then u - 3 else length (messages c) - 100)
             (messages c)"
proof -
  have "messages (trimBacklog c) =
          drop (nat (keepIndexLoop (int (length (messages c))) 0 (messages c))) (messages c)"
    using n by (simp add: trimBacklog_def trimHard_id messages_trimSoft)
  also have "keepIndexLoop (int (length (messages c))) 0 (messages c) =
           (if u + 100 \<le> length (messages c) then max 0 (int u - 3)
            else int (length (messages c)) - 100)"
    using n(1) u first by (rule keepIndexLoop_first_unread)
  also have "nat (if u + 100 \<le> length (messages c) then max 0 (int u - 3)
            else int (length (messages c)) - 100)
         = (if u + 100 \<le> length (messages c) then u - 3 else length (messages c) - 100)"
    by (simp add: max_def) arith
  finally show ?thesis .
qed

lemma trimBacklog_length_le: "length (messages (trimBacklog c)) \<le> 200"
proof -
  have "length (messages (trimBacklog c)) \<le> length (messages (trimHard c))"
    unfolding trimBacklog_def by (rule length_messages_trimSoft)
  then show ?thesis by (simp add: length_messages_trimHard)
qed

lemma trimBacklog_numUnread:
  assumes "200 < length (messages c) \<or> numUnread c = int (length (filter (\<lambda>m. Status m = UNREAD) (messages c)))"
  shows "numUnread (trimBacklog c) = int (length (filter (\<lambda>m. Status m = UNREAD) (messages (trimBacklog c))))"
proof -
  have "numUnread (trimHard c) = int (length (filter (\<lambda>m. Status m = UNREAD) (messages (trimHard c))))"
    using assms
    by (auto simp: trimHard_def backlogHardLimit_def numUnread_recountUnread messages_recountUnread)
  then show ?thesis
    by (simp add: trimBacklog_def numUnread_trimSoft trimSoft_keeps_unread)
qed

subsection \<open>AddMessage and UpdateMessage\<close>

lemma AddMessage_valid_fst:
  assumes "validateMessage c msg = None"
  shows "fst (AddMessage be c msg p) =
     trimBacklog (if Status msg = UNREAD
                  then c\<lparr>messages := messages c @ [msg], numUnread := numUnread c + 1\<rparr>
                  else c\<lparr>messages := messages c @ [msg]\<rparr>)"
  unfolding AddMessage_def Let_def using assms
  by (cases "Status msg = UNREAD";
      cases "\<not> p \<and> active (trimBacklog (c\<lparr>messages := messages c @ [msg]\<rparr>))")
     (simp_all del: not_None_eq)

lemma AddMessage_valid:
  assumes "validateMessage c msg = None"
  shows "messages (fst (AddMessage be c msg p)) =
           messages (trimBacklog (c\<lparr>messages := messages c @ [msg]\<rparr>))"
  unfolding AddMessage_valid_fst [OF assms]
  by (rule messages_trimBacklog_cong) simp

text \<open>
  \<open>AddMessage\<close> keeps the counter equal to the number of UNREAD messages.
  \<open>UpdateMessage\<close> keeps it so except when the update raises that number: then the
  counter is one short.
\<close>

lemma AddMessage_numUnread:
  assumes "numUnread c = int (length (filter (\<lambda>m. Status m = UNREAD) (messages c)))"
  shows "numUnread (fst (AddMessage be c msg p)) =
           int (length (filter (\<lambda>m. Status m = UNREAD) (messages (fst (AddMessage be c msg p)))))"
proof (cases "validateMessage c msg")
  case (Some err)
  then show ?thesis using assms by (simp add: AddMessage_def)
next
  case None
  show ?thesis
    unfolding AddMessage_valid_fst [OF None]
    by (rule trimBacklog_numUnread) (simp add: assms)
qed

lemma count_unread_list_update:
  "i < length xs \<Longrightarrow>
     int (length (filter P (xs[i := y]))) =
       int (length (filter P xs)) - (if P (xs ! i) then 1 else 0) + (if P y then 1 else 0)"
proof (induction xs arbitrary: i)
  case Nil
  then show ?case by simp
next
  case (Cons x xs)
  show ?case
  proof (cases i)
    case 0
    then show ?thesis by simp
  next
    case (Suc j)
    then have "j < length xs" using Cons.prems by simp
    from Cons.IH [OF this] Suc show ?thesis by (auto split: if_splits)
  qed
qed

lemma updateLoop_result:
  "updateLoop c upd us n = Some c' \<Longrightarrow>
     c' = c \<or>
     (\<exists>i<n. c' = (if Status (messages c ! i) = UNREAD \<and> Status upd \<noteq> UNREAD
                   then c\<lparr>numUnread := numUnread c - 1\<rparr> else c)
                  \<lparr>messages := (messages c)[i := upd]\<rparr>)"
proof (induction n)
  case 0
  then show ?case by simp
next
  case (Suc n)
  show ?case
  proof (cases "Sender (messages c ! n)")
    case None
    then show ?thesis using Suc.prems by simp
  next
    case (Some sender)
    show ?thesis
    proof (cases "IsSelf sender \<noteq> IsSelf us \<or> Identifier (messages c ! n) \<noteq> Identifier upd")
      case True
      then have "updateLoop c upd us n = Some c'" using Suc.prems Some by simp
      from Suc.IH [OF this] show ?thesis using less_Suc_eq by auto
    next
      case False
      then have "c' = (if Status (messages c ! n) = UNREAD \<and> Status upd \<noteq> UNREAD
                   then c\<lparr>numUnread := numUnread c - 1\<rparr> else c)
                  \<lparr>messages := (messages c)[n := upd]\<rparr>"
        using Suc.prems Some by auto
      then show ?thesis by blast
    qed
  qed
qed

lemma UpdateMessage_numUnread:
  assumes upd: "UpdateMessage c updatedMsg = Some c'"
    and inv: "numUnread c = int (length (filter (\<lambda>m. Status m = UNREAD) (messages c)))"
  shows "numUnread c' =
           int (length (filter (\<lambda>m. Status m = UNREAD) (messages c')))
           - (if length (filter (\<lambda>m. Status m = UNREAD) (messages c))
                 < length (filter (\<lambda>m. Status m = UNREAD) (messages c'))
              then 1 else 0)"
proof -
  have "c' = c \<or>
     (\<exists>i<length (messages c).
         c' = (if Status (messages c ! i) = UNREAD \<and> Status updatedMsg \<noteq> UNREAD
                   then c\<lparr>numUnread := numUnread c - 1\<rparr> else c)
                  \<lparr>messages := (messages c)[i := updatedMsg]\<rparr>)"
  proof (cases "validateMessage c updatedMsg")
    case (Some err)
    then show ?thesis using upd by (simp add: UpdateMessage_def)
  next
    case None
    show ?thesis
    proof (cases "Sender updatedMsg")
      case no: None
      then show ?thesis using upd None by (simp add: UpdateMessage_def)
    next
      case (Some us)
      then have "updateLoop c updatedMsg us (length (messages c)) = Some c'"
        using upd None by (simp add: UpdateMessage_def)
      then show ?thesis by (rule updateLoop_result)
    qed
  qed
  then show ?thesis
  proof
    assume "c' = c"
    then show ?thesis using inv by simp
  next
    assume "\<exists>i<length (messages c).
         c' = (if Status (messages c ! i) = UNREAD \<and> Status updatedMsg \<noteq> UNREAD
                   then c\<lparr>numUnread := numUnread c - 1\<rparr> else c)
                  \<lparr>messages := (messages c)[i := updatedMsg]\<rparr>"
    then obtain i where i: "i < length (messages c)"
      and c': "c' = (if Status (messages c ! i) = UNREAD \<and> Status updatedMsg \<noteq> UNREAD
                   then c\<lparr>numUnread := numUnread c - 1\<rparr> else c)
                  \<lparr>messages := (messages c)[i := updatedMsg]\<rparr>"
      by blast
    have m: "messages c' = (messages c)[i := updatedMsg]" using c' by simp
    from count_unread_list_update [OF i, of "\<lambda>m. Status m = UNREAD" updatedMsg]
    show ?thesis using inv c' m by (auto split: if_splits)
  qed
qed

subsection \<open>The scan of MarkAsRead\<close>

lemma findMessageId_dropWhile:
  "n \<le> length ms \<Longrightarrow>
     findMessageId ms n =
       (case dropWhile (\<lambda>m. Status m \<noteq> UNREAD \<and> Status m \<noteq> READ) (rev (take n ms)) of
          [] \<Rightarrow> None
        | m # _ \<Rightarrow> if Status m = UNREAD then Some m else None)"
proof (induction n)
  case 0
  show ?case by simp
next
  case (Suc n)
  then have n: "n < length ms" by simp
  have "rev (take (Suc n) ms) = ms ! n # rev (take n ms)"
    using n by (simp add: take_Suc_conv_app_nth)
  then show ?case using Suc.IH n by simp
qed

section \<open>Properties of the contact's connection\<close>

lemma closeConn_simps:
  "contact (closeConn r w) = contact w"
  "configContacts (closeConn r w) = configContacts w"
  "effects (closeConn r w) = effects w"
  "Closed (conns (closeConn r w) r)"
  "r' \<noteq> r \<Longrightarrow> conns (closeConn r w) r' = conns w r'"
  by (simp_all add: closeConn_def)

lemma updateContactRequest_conns:
  "conns (snd (updateContactRequest clk st w)) = conns w"
  by (simp add: updateContactRequest_def Let_def split: prod.splits)

lemma updateContactRequest_connection:
  "connection (contact (snd (updateContactRequest clk st w))) = connection (contact w)"
  by (auto simp: updateContactRequest_def Let_def split: prod.splits if_splits)

lemma updateContactRequest_effects:
  "effects (snd (updateContactRequest clk st w)) = effects w"
  by (simp add: updateContactRequest_def Let_def split: prod.splits)

lemma adoptConnection_connection:
  "connection (contact (adoptConnection clk w conn)) = Some conn"
  by (simp add: adoptConnection_def Let_def updateContactRequest_connection split: option.splits)

lemma adoptConnection_conns:
  "conns (adoptConnection clk w conn) =
     (case connection (contact w) of None \<Rightarrow> conns w | Some cur \<Rightarrow> conns (closeConn cur w))"
  by (simp add: adoptConnection_def Let_def updateContactRequest_conns split: option.splits)

lemma shouldReplaceConnection_rules:
  "connection (contact w) = Some cur \<Longrightarrow>
     shouldReplaceConnection t w conn =
        (Closed (conns w cur)
         \<or> Client (conns w cur) = Client (conns w conn)
         \<or> t - timeConnected (contact w) > 30 * second
         \<or> Client (conns w conn) = (MyHostname (conns w conn) < OtherHostname (conns w conn)))"
  by (auto simp: shouldReplaceConnection_def)

lemma setConnection_duel:
  assumes cur: "connection (contact w) = Some cur" and ne: "cur \<noteq> conn"
    and open_cur: "\<not> Closed (conns w cur)"
    and authed: "IsAuthed (conns w conn)" and open_new: "\<not> Closed (conns w conn)"
    and opp: "Client (conns w cur) \<noteq> Client (conns w conn)"
    and fresh: "now clk - timeConnected (contact w) \<le> 30 * second"
    and labels: "MyHostname (conns w conn) = me" "OtherHostname (conns w conn) = peer"
    and host: "16 \<le> length (Hostname (cdata (contact w)))"
              "take 16 (Hostname (cdata (contact w))) = peer"
    and known: "Client (conns w conn) \<longrightarrow>
              outboundConnAuthKnown (contact w) \<or> Pending (Request (cdata (contact w)))"
  shows "setConnection clk w conn =
           (if Client (conns w conn) = (me < peer)
            then Some (None, adoptConnection clk w conn)
            else Some (Some UsingExisting, closeConn conn w))"
proof -
  have rep: "shouldReplaceConnection (now clk) w conn = (Client (conns w conn) = (me < peer))"
    using shouldReplaceConnection_rules [OF cur, of "now clk" conn] open_cur opp fresh labels
    by auto
  have "Some conn \<noteq> connection (contact w)" using cur ne by auto
  then show ?thesis
    using rep cur authed open_new host labels known
    by (auto simp: setConnection_def)
qed

lemma setConnection_error_cases:
  assumes "setConnection clk w conn = Some (Some err, w')"
  shows "(err = DuplicateAssignment \<and> connection (contact w) = Some conn \<and> w' = w)
       \<or> (err \<noteq> DuplicateAssignment \<and> connection (contact w) \<noteq> Some conn \<and> w' = closeConn conn w)"
  using assms by (auto simp: setConnection_def split: if_splits)

text \<open>Nothing but the head of the loop spawns an outbound connector.\<close>

lemma spawns_adoptConnection: "spawns (effects (adoptConnection clk w conn)) = spawns (effects w)"
  by (simp add: adoptConnection_def Let_def spawns_def updateContactRequest_effects
        closeConn_simps split: option.splits)

lemma spawns_setConnection:
  "setConnection clk w conn = Some (res, w') \<Longrightarrow> spawns (effects w') = spawns (effects w)"
  by (auto simp: setConnection_def spawns_adoptConnection closeConn_simps split: if_splits)

lemma spawns_clearConnection:
  "spawns (effects (snd (clearConnection clk w ifConn))) = spawns (effects w)"
  by (simp add: clearConnection_def Let_def spawns_def closeConn_simps split: option.splits)

lemma spawns_loopBody:
  "loopBody clk w ev = Some (goOn, w') \<Longrightarrow> spawns (effects w') = spawns (effects w)"
proof (cases ev)
  case (ChanConn conn)
  assume b: "loopBody clk w ev = Some (goOn, w')"
  show ?thesis
  proof (cases "setConnection clk w conn")
    case None
    then show ?thesis using b ChanConn by (simp add: loopBody_def)
  next
    case (Some rw)
    obtain res v where rw: "rw = (res, v)" by (cases rw)
    have v: "spawns (effects v) = spawns (effects w)"
      using Some rw by (intro spawns_setConnection) simp
    show ?thesis using b ChanConn Some rw v
      by (cases res) (auto simp: loopBody_def closeConn_simps split: if_splits)
  qed
qed (auto simp: loopBody_def spawns_clearConnection)

section \<open>The claims\<close>

subsection \<open>C1: the duel\<close>

text \<open>
  Claim C1.  \<open>shouldReplaceConnection\<close> is a function of the state, so its answer is
  determined by its arguments.  With a current connection it answers by the ordered rules:
  replace when the current one is closed, or has the direction of the new one, or is older
  than 30 seconds, and otherwise exactly when the direction of the new one equals
  \<open>preferOutbound\<close>, the comparison of the local label with the peer's.  For two fresh
  sessions of opposite directions between two distinct labels, at an endpoint with label
  \<open>me\<close> and peer \<open>peer\<close>, \<open>setConnection\<close> keeps as current the session dialed by
  the smaller label and closes the other one, whichever of the two arrived first; the
  statement holds at both endpoints (take \<open>me\<close> the smaller or the greater label), so
  both keep the same session.  The hostnames of both sessions are taken to be the two
  labels, as \<open>connectOutbound\<close> sets them for the sessions it dials.
\<close>

theorem duel_resolution:
  "(connection (contact w) = Some cur \<longrightarrow>
      shouldReplaceConnection t w conn =
        (Closed (conns w cur)
         \<or> Client (conns w cur) = Client (conns w conn)
         \<or> t - timeConnected (contact w) > 30 * second
         \<or> Client (conns w conn) = (MyHostname (conns w conn) < OtherHostname (conns w conn))))
   \<and> (connection (contact w) = Some cur \<and> cur \<noteq> conn
        \<and> \<not> Closed (conns w cur) \<and> IsAuthed (conns w conn) \<and> \<not> Closed (conns w conn)
        \<and> Client (conns w cur) \<noteq> Client (conns w conn)
        \<and> now clk - timeConnected (contact w) \<le> 30 * second
        \<and> MyHostname (conns w cur) = me \<and> OtherHostname (conns w cur) = peer
        \<and> MyHostname (conns w conn) = me \<and> OtherHostname (conns w conn) = peer
        \<and> me \<noteq> peer
        \<and> 16 \<le> length (Hostname (cdata (contact w)))
        \<and> take 16 (Hostname (cdata (contact w))) = peer
        \<and> (Client (conns w conn) \<longrightarrow>
              outboundConnAuthKnown (contact w) \<or> Pending (Request (cdata (contact w))))
      \<longrightarrow> (\<exists>res w' kept other.
             setConnection clk w conn = Some (res, w')
             \<and> connection (contact w') = Some kept
             \<and> ((kept = cur \<and> other = conn) \<or> (kept = conn \<and> other = cur))
             \<and> Client (conns w kept) = (me < peer)
             \<and> dialedBy (conns w kept) = min me peer
             \<and> \<not> Closed (conns w' kept)
             \<and> Closed (conns w' other)))"
proof (intro conjI impI)
  assume "connection (contact w) = Some cur"
  then show "shouldReplaceConnection t w conn =
        (Closed (conns w cur)
         \<or> Client (conns w cur) = Client (conns w conn)
         \<or> t - timeConnected (contact w) > 30 * second
         \<or> Client (conns w conn) = (MyHostname (conns w conn) < OtherHostname (conns w conn)))"
    by (rule shouldReplaceConnection_rules)
next
  assume H: "connection (contact w) = Some cur \<and> cur \<noteq> conn
        \<and> \<not> Closed (conns w cur) \<and> IsAuthed (conns w conn) \<and> \<not> Closed (conns w conn)
        \<and> Client (conns w cur) \<noteq> Client (conns w conn)
        \<and> now clk - timeConnected (contact w) \<le> 30 * second
        \<and> MyHostname (conns w cur) = me \<and> OtherHostname (conns w cur) = peer
        \<and> MyHostname (conns w conn) = me \<and> OtherHostname (conns w conn) = peer
        \<and> me \<noteq> peer
        \<and> 16 \<le> length (Hostname (cdata (contact w)))
        \<and> take 16 (Hostname (cdata (contact w))) = peer
        \<and> (Client (conns w conn) \<longrightarrow>
              outboundConnAuthKnown (contact w) \<or> Pending (Request (cdata (contact w))))"
  from H have cur: "connection (contact w) = Some cur" and ne: "cur \<noteq> conn"
    and oc: "\<not> Closed (conns w cur)" and on: "\<not> Closed (conns w conn)"
    and au: "IsAuthed (conns w conn)"
    and opp: "Client (conns w cur) \<noteq> Client (conns w conn)"
    and fresh: "now clk - timeConnected (contact w) \<le> 30 * second"
    and lab: "MyHostname (conns w cur) = me" "OtherHostname (conns w cur) = peer"
             "MyHostname (conns w conn) = me" "OtherHostname (conns w conn) = peer"
    and mp: "me \<noteq> peer"
    and host: "16 \<le> length (Hostname (cdata (contact w)))"
              "take 16 (Hostname (cdata (contact w))) = peer"
    and known: "Client (conns w conn) \<longrightarrow>
              outboundConnAuthKnown (contact w) \<or> Pending (Request (cdata (contact w)))"
    by simp_all
  have sc: "setConnection clk w conn =
           (if Client (conns w conn) = (me < peer)
            then Some (None, adoptConnection clk w conn)
            else Some (Some UsingExisting, closeConn conn w))"
    by (rule setConnection_duel [OF cur ne oc au on opp fresh lab(3) lab(4) host known])
  show "\<exists>res w' kept other.
             setConnection clk w conn = Some (res, w')
             \<and> connection (contact w') = Some kept
             \<and> ((kept = cur \<and> other = conn) \<or> (kept = conn \<and> other = cur))
             \<and> Client (conns w kept) = (me < peer)
             \<and> dialedBy (conns w kept) = min me peer
             \<and> \<not> Closed (conns w' kept)
             \<and> Closed (conns w' other)"
  proof (cases "Client (conns w conn) = (me < peer)")
    case True
    have d: "dialedBy (conns w conn) = min me peer"
      using True lab mp by (auto simp: dialedBy_def min_def)
    have "setConnection clk w conn = Some (None, adoptConnection clk w conn)
          \<and> connection (contact (adoptConnection clk w conn)) = Some conn
          \<and> Client (conns w conn) = (me < peer)
          \<and> dialedBy (conns w conn) = min me peer
          \<and> \<not> Closed (conns (adoptConnection clk w conn) conn)
          \<and> Closed (conns (adoptConnection clk w conn) cur)"
      using sc True d cur ne on
      by (simp add: adoptConnection_connection adoptConnection_conns closeConn_simps)
    then show ?thesis by blast
  next
    case False
    have c: "Client (conns w cur) = (me < peer)" using False opp by auto
    have d: "dialedBy (conns w cur) = min me peer"
      using c lab mp by (auto simp: dialedBy_def min_def)
    have "setConnection clk w conn = Some (Some UsingExisting, closeConn conn w)
          \<and> connection (contact (closeConn conn w)) = Some cur
          \<and> Client (conns w cur) = (me < peer)
          \<and> dialedBy (conns w cur) = min me peer
          \<and> \<not> Closed (conns (closeConn conn w) cur)
          \<and> Closed (conns (closeConn conn w) conn)"
      using sc False c d cur ne oc by (simp add: closeConn_simps)
    then show ?thesis by blast
  qed
qed

theorem duel_resolution_witness:
  "shouldReplaceConnection (now testClock) duelAgent 1
   \<and> (\<exists>res w' kept other.
         setConnection testClock duelAgent 1 = Some (res, w')
         \<and> connection (contact w') = Some kept
         \<and> ((kept = 2 \<and> other = 1) \<or> (kept = 1 \<and> other = 2))
         \<and> Client (conns duelAgent kept) = (''aaaaaaaaaaaaaaaa'' < ''bbbbbbbbbbbbbbbb'')
         \<and> dialedBy (conns duelAgent kept) = min ''aaaaaaaaaaaaaaaa'' ''bbbbbbbbbbbbbbbb''
         \<and> \<not> Closed (conns w' kept)
         \<and> Closed (conns w' other))
   \<and> (\<exists>res w' kept other.
         setConnection testClock peerAgent 2 = Some (res, w')
         \<and> connection (contact w') = Some kept
         \<and> ((kept = 1 \<and> other = 2) \<or> (kept = 2 \<and> other = 1))
         \<and> Client (conns peerAgent kept) = (''bbbbbbbbbbbbbbbb'' < ''aaaaaaaaaaaaaaaa'')
         \<and> dialedBy (conns peerAgent kept) = min ''bbbbbbbbbbbbbbbb'' ''aaaaaaaaaaaaaaaa''
         \<and> \<not> Closed (conns w' kept)
         \<and> Closed (conns w' other))
   \<and> map_option (\<lambda>rw. (fst rw, connection (contact (snd rw)),
                         Closed (conns (snd rw) 1), Closed (conns (snd rw) 2)))
        (setConnection testClock duelAgent 1) = Some (None, Some 1, False, True)
   \<and> map_option (\<lambda>rw. (fst rw, connection (contact (snd rw)),
                         Closed (conns (snd rw) 1), Closed (conns (snd rw) 2)))
        (setConnection testClock peerAgent 2) = Some (None, Some 2, True, False)
   \<and> dialedBy (conns duelAgent 1) = ''aaaaaaaaaaaaaaaa''
   \<and> dialedBy (conns peerAgent 2) = ''aaaaaaaaaaaaaaaa''"
proof -
  have c: "connection (contact duelAgent) = Some 2"
    by (simp add: duelAgent_def testAgent_def testContact_def)
  have r: "Client (conns duelAgent 1)
             = (MyHostname (conns duelAgent 1) < OtherHostname (conns duelAgent 1))"
    by (simp add: duelAgent_def testAgent_def outboundConn_def)
  have h: "connection (contact duelAgent) = Some 2 \<and> (2::nat) \<noteq> 1
        \<and> \<not> Closed (conns duelAgent 2) \<and> IsAuthed (conns duelAgent 1)
        \<and> \<not> Closed (conns duelAgent 1)
        \<and> Client (conns duelAgent 2) \<noteq> Client (conns duelAgent 1)
        \<and> now testClock - timeConnected (contact duelAgent) \<le> 30 * second
        \<and> MyHostname (conns duelAgent 2) = ''aaaaaaaaaaaaaaaa''
        \<and> OtherHostname (conns duelAgent 2) = ''bbbbbbbbbbbbbbbb''
        \<and> MyHostname (conns duelAgent 1) = ''aaaaaaaaaaaaaaaa''
        \<and> OtherHostname (conns duelAgent 1) = ''bbbbbbbbbbbbbbbb''
        \<and> ''aaaaaaaaaaaaaaaa'' \<noteq> ''bbbbbbbbbbbbbbbb''
        \<and> 16 \<le> length (Hostname (cdata (contact duelAgent)))
        \<and> take 16 (Hostname (cdata (contact duelAgent))) = ''bbbbbbbbbbbbbbbb''
        \<and> (Client (conns duelAgent 1) \<longrightarrow>
              outboundConnAuthKnown (contact duelAgent)
              \<or> Pending (Request (cdata (contact duelAgent))))"
    by (simp add: duelAgent_def testAgent_def testContact_def outboundConn_def inboundConn_def
          testClock_def second_def)
  have h': "connection (contact peerAgent) = Some 1 \<and> (1::nat) \<noteq> 2
        \<and> \<not> Closed (conns peerAgent 1) \<and> IsAuthed (conns peerAgent 2)
        \<and> \<not> Closed (conns peerAgent 2)
        \<and> Client (conns peerAgent 1) \<noteq> Client (conns peerAgent 2)
        \<and> now testClock - timeConnected (contact peerAgent) \<le> 30 * second
        \<and> MyHostname (conns peerAgent 1) = ''bbbbbbbbbbbbbbbb''
        \<and> OtherHostname (conns peerAgent 1) = ''aaaaaaaaaaaaaaaa''
        \<and> MyHostname (conns peerAgent 2) = ''bbbbbbbbbbbbbbbb''
        \<and> OtherHostname (conns peerAgent 2) = ''aaaaaaaaaaaaaaaa''
        \<and> ''bbbbbbbbbbbbbbbb'' \<noteq> ''aaaaaaaaaaaaaaaa''
        \<and> 16 \<le> length (Hostname (cdata (contact peerAgent)))
        \<and> take 16 (Hostname (cdata (contact peerAgent))) = ''aaaaaaaaaaaaaaaa''
        \<and> (Client (conns peerAgent 2) \<longrightarrow>
              outboundConnAuthKnown (contact peerAgent)
              \<or> Pending (Request (cdata (contact peerAgent))))"
    by (simp add: peerAgent_def testContact_def outboundConn_def inboundConn_def
          testClock_def second_def)
  from duel_resolution [of duelAgent 2 "now testClock" 1 testClock "''aaaaaaaaaaaaaaaa''"
               "''bbbbbbbbbbbbbbbb''"] c r h
  have a: "shouldReplaceConnection (now testClock) duelAgent 1
   \<and> (\<exists>res w' kept other.
         setConnection testClock duelAgent 1 = Some (res, w')
         \<and> connection (contact w') = Some kept
         \<and> ((kept = 2 \<and> other = 1) \<or> (kept = 1 \<and> other = 2))
         \<and> Client (conns duelAgent kept) = (''aaaaaaaaaaaaaaaa'' < ''bbbbbbbbbbbbbbbb'')
         \<and> dialedBy (conns duelAgent kept) = min ''aaaaaaaaaaaaaaaa'' ''bbbbbbbbbbbbbbbb''
         \<and> \<not> Closed (conns w' kept)
         \<and> Closed (conns w' other))"
    by blast
  from duel_resolution [of peerAgent 1 "now testClock" 2 testClock "''bbbbbbbbbbbbbbbb''"
               "''aaaaaaaaaaaaaaaa''"] h'
  have b: "\<exists>res w' kept other.
         setConnection testClock peerAgent 2 = Some (res, w')
         \<and> connection (contact w') = Some kept
         \<and> ((kept = 1 \<and> other = 2) \<or> (kept = 2 \<and> other = 1))
         \<and> Client (conns peerAgent kept) = (''bbbbbbbbbbbbbbbb'' < ''aaaaaaaaaaaaaaaa'')
         \<and> dialedBy (conns peerAgent kept) = min ''bbbbbbbbbbbbbbbb'' ''aaaaaaaaaaaaaaaa''
         \<and> \<not> Closed (conns w' kept)
         \<and> Closed (conns w' other)"
    by blast
  have e1: "map_option (\<lambda>rw. (fst rw, connection (contact (snd rw)),
                         Closed (conns (snd rw) 1), Closed (conns (snd rw) 2)))
        (setConnection testClock duelAgent 1) = Some (None, Some 1, False, True)"
    by (simp add: setConnection_def shouldReplaceConnection_def adoptConnection_connection
          adoptConnection_conns closeConn_def duelAgent_def testAgent_def testContact_def
          outboundConn_def inboundConn_def noRequest_def testClock_def second_def)
  have e2: "map_option (\<lambda>rw. (fst rw, connection (contact (snd rw)),
                         Closed (conns (snd rw) 1), Closed (conns (snd rw) 2)))
        (setConnection testClock peerAgent 2) = Some (None, Some 2, True, False)"
    by (simp add: setConnection_def shouldReplaceConnection_def adoptConnection_connection
          adoptConnection_conns closeConn_def peerAgent_def testContact_def
          outboundConn_def inboundConn_def noRequest_def testClock_def second_def)
  have d: "dialedBy (conns duelAgent 1) = ''aaaaaaaaaaaaaaaa''"
          "dialedBy (conns peerAgent 2) = ''aaaaaaaaaaaaaaaa''"
    by (simp_all add: dialedBy_def duelAgent_def testAgent_def peerAgent_def outboundConn_def
          inboundConn_def)
  from a b e1 e2 d show ?thesis by (intro conjI) (simp_all only: simp_thms)
qed

subsection \<open>C2: the soft limit\<close>

text \<open>
  Claim C2, amended.  For a backlog of length \<open>N\<close> with \<open>100 < N \<le> 200\<close> whose oldest
  UNREAD message is at index \<open>u\<close>, trimming removes exactly the messages before
  \<open>max (u - 3) 0\<close> when the oldest UNREAD message is not among the newest 100 messages
  (\<open>u + 100 \<le> N\<close>), and exactly the messages before \<open>N - 100\<close>, which leaves the newest
  100, when \<open>N - 100 \<le> u - 3\<close>.  So appending one message to a backlog of 100 whose only
  UNREAD message is at index 50 leaves exactly the messages from index 1 onward.
\<close>

theorem trimBacklog_soft_limit_window:
  "(100 < length (messages c) \<and> length (messages c) \<le> 200
      \<and> u < length (messages c) \<and> Status (messages c ! u) = UNREAD
      \<and> list_all (\<lambda>m. Status m \<noteq> UNREAD) (take u (messages c))
     \<longrightarrow> (u + 100 \<le> length (messages c)
            \<longrightarrow> messages (trimBacklog c) = drop (nat (max (int u - 3) 0)) (messages c))
         \<and> (length (messages c) - 100 + 3 \<le> u
            \<longrightarrow> messages (trimBacklog c) = drop (length (messages c) - 100) (messages c)))
   \<and> (length (messages d) = 100 \<and> Status (messages d ! 50) = UNREAD
      \<and> list_all (\<lambda>m. Status m \<noteq> UNREAD) (take 50 (messages d))
      \<and> list_all (\<lambda>m. Status m \<noteq> UNREAD) (drop 51 (messages d))
      \<and> validateMessage d msg = None
     \<longrightarrow> messages (fst (AddMessage be d msg p)) = drop 1 (messages d @ [msg]))"
proof (intro conjI impI)
  assume H: "100 < length (messages c) \<and> length (messages c) \<le> 200
      \<and> u < length (messages c) \<and> Status (messages c ! u) = UNREAD
      \<and> list_all (\<lambda>m. Status m \<noteq> UNREAD) (take u (messages c))"
  then have eq: "messages (trimBacklog c) =
           drop (if u + 100 \<le> length (messages c) then u - 3 else length (messages c) - 100)
             (messages c)"
    by (intro messages_trimBacklog_first_unread) simp_all
  {
    assume "u + 100 \<le> length (messages c)"
    moreover have "nat (max (int u - 3) 0) = u - 3" by (simp add: max_def nat_diff_distrib)
    ultimately show "messages (trimBacklog c) = drop (nat (max (int u - 3) 0)) (messages c)"
      using eq by simp
  }
  {
    assume "length (messages c) - 100 + 3 \<le> u"
    then have "\<not> u + 100 \<le> length (messages c)" using H by linarith
    then show "messages (trimBacklog c) = drop (length (messages c) - 100) (messages c)"
      using eq by simp
  }
next
  assume H: "length (messages d) = 100 \<and> Status (messages d ! 50) = UNREAD
      \<and> list_all (\<lambda>m. Status m \<noteq> UNREAD) (take 50 (messages d))
      \<and> list_all (\<lambda>m. Status m \<noteq> UNREAD) (drop 51 (messages d))
      \<and> validateMessage d msg = None"
  let ?d = "d\<lparr>messages := messages d @ [msg]\<rparr>"
  have "messages (trimBacklog ?d) =
           drop (if 50 + 100 \<le> length (messages ?d) then 50 - 3 else length (messages ?d) - 100)
             (messages ?d)"
    using H by (intro messages_trimBacklog_first_unread) (simp_all add: nth_append)
  then show "messages (fst (AddMessage be d msg p)) = drop 1 (messages d @ [msg])"
    using H by (simp add: AddMessage_valid)
qed

theorem trimBacklog_soft_limit_window_witness:
  "messages (trimBacklog backlog150) = drop 7 (messages backlog150)
   \<and> messages (fst (AddMessage None backlog100 (inboundMsg 4 READ) True))
       = drop 1 (messages backlog100 @ [inboundMsg 4 READ])"
proof -
  have h1: "100 < length (messages backlog150) \<and> length (messages backlog150) \<le> 200
      \<and> 10 < length (messages backlog150) \<and> Status (messages backlog150 ! 10) = UNREAD
      \<and> list_all (\<lambda>m. Status m \<noteq> UNREAD) (take 10 (messages backlog150))"
    by (simp add: backlog150_def testConv_def inboundMsg_def nth_append list_all_iff)
  have h1': "10 + 100 \<le> length (messages backlog150)"
    by (simp add: backlog150_def testConv_def)
  have h2: "length (messages backlog100) = 100 \<and> Status (messages backlog100 ! 50) = UNREAD
      \<and> list_all (\<lambda>m. Status m \<noteq> UNREAD) (take 50 (messages backlog100))
      \<and> list_all (\<lambda>m. Status m \<noteq> UNREAD) (drop 51 (messages backlog100))
      \<and> validateMessage backlog100 (inboundMsg 4 READ) = None"
    by (simp add: backlog100_def testConv_def inboundMsg_def nth_append validateMessage_def
          maxMessageTextLength_def list_all_iff)
  from trimBacklog_soft_limit_window [of backlog150 10 backlog100 "inboundMsg 4 READ" None True]
    h1 h1' h2
  show ?thesis by simp
qed

text \<open>
  The claim as stated fails: after the append to the backlog of 100 with its only UNREAD
  message at index 50, the messages from index 1 onward are left, 100 of them, not those
  from index 47 onward.
\<close>

theorem trimBacklog_soft_limit_window_counterexample:
  "length (messages backlog100) = 100
   \<and> map Status (filter (\<lambda>m. Status m = UNREAD) (messages backlog100)) = [UNREAD]
   \<and> Status (messages backlog100 ! 50) = UNREAD
   \<and> validateMessage backlog100 (inboundMsg 4 READ) = None
   \<and> messages (fst (AddMessage None backlog100 (inboundMsg 4 READ) True))
       = drop 1 (messages backlog100 @ [inboundMsg 4 READ])
   \<and> messages (fst (AddMessage None backlog100 (inboundMsg 4 READ) True))
       \<noteq> drop 47 (messages backlog100 @ [inboundMsg 4 READ])
   \<and> length (messages (fst (AddMessage None backlog100 (inboundMsg 4 READ) True))) = 100"
  by code_simp

subsection \<open>C3: UNREAD messages and trimming\<close>

text \<open>
  Claim C3, amended.  Trimming a backlog of at most 200 messages removes no UNREAD
  message.  Trimming a backlog of \<open>N > 200\<close> messages discards the oldest \<open>N - 200\<close>
  whatever their status, and removes no UNREAD message from the 200 that remain.
\<close>

theorem trimBacklog_keeps_unread:
  "(length (messages c) \<le> 200 \<longrightarrow>
      filter (\<lambda>m. Status m = UNREAD) (messages (trimBacklog c))
        = filter (\<lambda>m. Status m = UNREAD) (messages c))
   \<and> (200 < length (messages c) \<longrightarrow>
      filter (\<lambda>m. Status m = UNREAD) (messages (trimBacklog c))
        = filter (\<lambda>m. Status m = UNREAD) (drop (length (messages c) - 200) (messages c)))"
  by (simp add: trimBacklog_def trimSoft_keeps_unread messages_trimHard)

theorem trimBacklog_keeps_unread_witness:
  "filter (\<lambda>m. Status m = UNREAD) (messages (trimBacklog backlog150))
        = filter (\<lambda>m. Status m = UNREAD) (messages backlog150)
   \<and> filter (\<lambda>m. Status m = UNREAD)
        (messages (trimBacklog (unread200\<lparr>messages := messages unread200 @ [inboundMsg 200 UNREAD]\<rparr>)))
        = filter (\<lambda>m. Status m = UNREAD)
            (drop (length (messages unread200 @ [inboundMsg 200 UNREAD]) - 200)
               (messages unread200 @ [inboundMsg 200 UNREAD]))"
proof -
  have h1: "length (messages backlog150) \<le> 200"
    by (simp add: backlog150_def testConv_def)
  have h2: "200 < length (messages (unread200\<lparr>messages := messages unread200 @ [inboundMsg 200 UNREAD]\<rparr>))"
    by (simp add: unread200_def testConv_def)
  from trimBacklog_keeps_unread [of backlog150] h1
       trimBacklog_keeps_unread
         [of "unread200\<lparr>messages := messages unread200 @ [inboundMsg 200 UNREAD]\<rparr>"] h2
  show ?thesis by simp
qed

text \<open>
  The claim as stated fails above the hard limit: appending an UNREAD message to a backlog
  of 200 UNREAD messages discards the oldest of them.
\<close>

theorem trimBacklog_keeps_unread_counterexample:
  "validateMessage unread200 (inboundMsg 200 UNREAD) = None
   \<and> length (messages unread200) = 200
   \<and> length (filter (\<lambda>m. Status m = UNREAD) (messages unread200 @ [inboundMsg 200 UNREAD])) = 201
   \<and> length (filter (\<lambda>m. Status m = UNREAD)
        (messages (fst (AddMessage None unread200 (inboundMsg 200 UNREAD) True)))) = 200
   \<and> map Identifier (take 2 (messages unread200)) = [0, 1]
   \<and> map Identifier (take 2 (messages (fst (AddMessage None unread200 (inboundMsg 200 UNREAD) True))))
        = [1, 2]"
  by code_simp

subsection \<open>C4: the unread counter\<close>

text \<open>
  Claim C4.  The counter is left wrong by \<open>UpdateMessage\<close> when the update turns a message
  that is not UNREAD into an UNREAD one: on a backlog holding one READ message and a
  counter of 0, updating that message to UNREAD leaves one UNREAD message and a counter of 0.
  (\<open>AddMessage_numUnread\<close> and \<open>UpdateMessage_numUnread\<close> above give the cases in which
  the counter is kept right.)
\<close>

theorem UpdateMessage_misses_increment:
  "validateMessage readOne (inboundMsg 5 UNREAD) = None
   \<and> numUnread readOne = int (length (filter (\<lambda>m. Status m = UNREAD) (messages readOne)))
   \<and> UpdateMessage readOne (inboundMsg 5 UNREAD)
       = Some (readOne\<lparr>messages := [inboundMsg 5 UNREAD]\<rparr>)
   \<and> numUnread (readOne\<lparr>messages := [inboundMsg 5 UNREAD]\<rparr>) = 0
   \<and> int (length (filter (\<lambda>m. Status m = UNREAD)
                     (messages (readOne\<lparr>messages := [inboundMsg 5 UNREAD]\<rparr>)))) = 1"
  by (simp add: UpdateMessage_def validateMessage_def readOne_def testConv_def inboundMsg_def
        maxMessageTextLength_def)

text \<open>So the counter differs from the number of UNREAD messages after the update.\<close>

theorem UpdateMessage_misses_increment_witness:
  "\<exists>c'. UpdateMessage readOne (inboundMsg 5 UNREAD) = Some c'
         \<and> numUnread c' \<noteq> int (length (filter (\<lambda>m. Status m = UNREAD) (messages c')))"
  using UpdateMessage_misses_increment by simp

subsection \<open>C5: an outbound session to a peer that does not know us\<close>

text \<open>
  Claim C5.  The contact has no pending request and no connection; the outbound connection 1
  authenticates and the peer reports that we are not a known contact.  \<open>setConnection\<close>
  returns its error and the connection is closed, but the status stays UNKNOWN, not
  REJECTED, \<open>shouldMakeOutboundConnections\<close> still holds and the next head of the loop
  spawns another outbound connector.
\<close>

theorem not_known_contact_keeps_dialing:
  "\<not> Pending (Request (cdata (contact testAgent)))
   \<and> Client (conns testAgent 1) \<and> IsAuthed (conns testAgent 1)
   \<and> snd (OnConnectionAuthenticated testAgent 1 False) = Some 1
   \<and> map_option fst (setConnection testClock (fst (OnConnectionAuthenticated testAgent 1 False)) 1)
       = Some (Some NotKnownContact)
   \<and> (case contactConnection (fst (OnConnectionAuthenticated testAgent 1 False))
             [(testClock, ChanConn 1)] of
         None \<Rightarrow> False
       | Some w \<Rightarrow>
           Closed (conns w 1)
           \<and> connection (contact w) = None
           \<and> status (contact w) = UNKNOWN
           \<and> shouldMakeOutboundConnections (contact w)
           \<and> effects w = [SpawnOutbound, CancelOutbound, SpawnOutbound])"
  by (simp add: testAgent_def testContact_def outboundConn_def inboundConn_def noRequest_def
        testClock_def OnConnectionAuthenticated_def setConnection_def closeConn_def
        contactConnectionStep_def loopHead_def loopBody_def shouldMakeOutboundConnections_def
        Let_def)

text \<open>So the loop ends up dialing again, for a contact that is not REJECTED.\<close>

theorem not_known_contact_keeps_dialing_witness:
  "\<exists>w. contactConnection (fst (OnConnectionAuthenticated testAgent 1 False))
          [(testClock, ChanConn 1)] = Some w
       \<and> status (contact w) \<noteq> REJECTED
       \<and> last (effects w) = SpawnOutbound"
  using not_known_contact_keeps_dialing by (auto split: option.splits)

subsection \<open>C6: MarkAsRead\<close>

text \<open>
  Claim C6, amended.  \<open>MarkAsRead\<close> scans the backlog from the newest message to the
  oldest, passes over every message whose status is neither UNREAD nor READ, whoever sent
  it, and stops at the first message whose status is UNREAD or READ.  When the scan finds no
  UNREAD message it dispatches nothing and returns no error.  When it finds one that
  validates and was sent by the peer, it dispatches \<open>markConversationRead\<close> with that
  message's identifier and returns what the backend returns; when the one it finds was sent
  by the local side it dispatches nothing and returns an error.
\<close>

theorem MarkAsRead_scan:
  "findMessageId (messages c) (length (messages c)) =
       (case dropWhile (\<lambda>m. Status m \<noteq> UNREAD \<and> Status m \<noteq> READ) (rev (messages c)) of
          [] \<Rightarrow> None
        | m # _ \<Rightarrow> if Status m = UNREAD then Some m else None)
   \<and> (findMessageId (messages c) (length (messages c)) = None \<longrightarrow>
        MarkAsRead be c = (None, []))
   \<and> (findMessageId (messages c) (length (messages c)) = Some m
        \<and> validateMessage c m = None \<and> Sender m = Some s \<and> \<not> IsSelf s \<longrightarrow>
        MarkAsRead be c = (be, [\<lparr>ReqEntity = Sender m, LastRecvIdentifier = Identifier m\<rparr>]))
   \<and> (findMessageId (messages c) (length (messages c)) = Some m
        \<and> validateMessage c m = None \<and> Sender m = Some s \<and> IsSelf s \<longrightarrow>
        MarkAsRead be c = (Some OutboundNotMarkable, []))"
proof (intro conjI impI)
  show "findMessageId (messages c) (length (messages c)) =
       (case dropWhile (\<lambda>m. Status m \<noteq> UNREAD \<and> Status m \<noteq> READ) (rev (messages c)) of
          [] \<Rightarrow> None
        | m # _ \<Rightarrow> if Status m = UNREAD then Some m else None)"
    using findMessageId_dropWhile [of "length (messages c)" "messages c"] by simp
qed (simp_all add: MarkAsRead_def MarkAsReadBefore_def)

theorem MarkAsRead_scan_witness:
  "findMessageId (messages readUnreadSent) (length (messages readUnreadSent))
     = Some (inboundMsg 7 UNREAD)
   \<and> MarkAsRead None readUnreadSent
     = (None, [\<lparr>ReqEntity = Sender (inboundMsg 7 UNREAD), LastRecvIdentifier = 7\<rparr>])
   \<and> MarkAsRead None testConv = (None, [])"
proof -
  have h0: "findMessageId (messages testConv) (length (messages testConv)) = None"
    by (simp add: testConv_def)
  have h1: "findMessageId (messages readUnreadSent) (length (messages readUnreadSent))
              = Some (inboundMsg 7 UNREAD)
        \<and> validateMessage readUnreadSent (inboundMsg 7 UNREAD) = None
        \<and> Sender (inboundMsg 7 UNREAD)
            = Some \<lparr>Address = ''ricochet:bbbbbbbbbbbbbbbb'', IsSelf = False\<rparr>
        \<and> \<not> IsSelf \<lparr>Address = ''ricochet:bbbbbbbbbbbbbbbb'', IsSelf = False\<rparr>"
    by code_simp
  have i: "Identifier (inboundMsg 7 UNREAD) = 7" by (simp add: inboundMsg_def)
  from MarkAsRead_scan [of testConv None]
       MarkAsRead_scan [of readUnreadSent None "inboundMsg 7 UNREAD"
                          "\<lparr>Address = ''ricochet:bbbbbbbbbbbbbbbb'', IsSelf = False\<rparr>"]
       h0 h1 i
  show ?thesis by simp
qed

text \<open>
  The claim as stated fails: with an UNREAD message from the peer followed by a delivered
  message of the local side, a scan that stops at the first self-sent message dispatches
  nothing, whereas \<open>MarkAsRead\<close> passes over the self-sent message and dispatches the
  identifier 7 of the UNREAD message.
\<close>

theorem MarkAsRead_scan_counterexample:
  "sentBySelf (messages unreadBeforeSent ! 1)
   \<and> Status (messages unreadBeforeSent ! 0) = UNREAD
   \<and> MarkAsRead_spec None unreadBeforeSent = (None, [])
   \<and> MarkAsRead None unreadBeforeSent
       = (None, [\<lparr>ReqEntity = Some \<lparr>Address = ''ricochet:bbbbbbbbbbbbbbbb'', IsSelf = False\<rparr>,
                  LastRecvIdentifier = 7\<rparr>])"
  by code_simp

subsection \<open>C7: no outbound connection to a rejected contact\<close>

text \<open>
  Claim C7.  For a contact whose status is REJECTED, \<open>shouldMakeOutboundConnections\<close> is
  false, the head of the loop spawns nothing, and a whole iteration of the loop that starts
  in such a state leaves the number of spawned connectors as it was.  Starting the
  connection of such a contact and running the loop to its first \<open>select\<close> spawns no
  connector and leaves the status REJECTED.  In any state, the head of the loop spawns a
  connector only when \<open>shouldMakeOutboundConnections\<close> is true.
\<close>

theorem rejected_no_outbound:
  assumes "status (contact w) = REJECTED"
  shows "\<not> shouldMakeOutboundConnections (contact w)
   \<and> loopHead w = w
   \<and> (contactConnectionStep clk w ev = Some (goOn, w') \<longrightarrow>
        spawns (effects w') = spawns (effects w))
   \<and> status (contact (StartConnection w)) = REJECTED
   \<and> contactConnection (StartConnection w) [] = Some (StartConnection w)
   \<and> effects (StartConnection w) = effects w
   \<and> (effects (loopHead v) \<noteq> effects v \<longrightarrow>
        shouldMakeOutboundConnections (contact v) \<and> connection (contact v) = None
        \<and> effects (loopHead v) = effects v @ [SpawnOutbound])"
proof -
  have no: "\<not> shouldMakeOutboundConnections (contact w)"
    using assms by (simp add: shouldMakeOutboundConnections_def)
  then have lh: "loopHead w = w" by (simp add: loopHead_def)
  have st: "status (contact (StartConnection w)) = REJECTED"
    using assms by (simp add: StartConnection_def)
  then have "\<not> shouldMakeOutboundConnections (contact (StartConnection w))"
    by (simp add: shouldMakeOutboundConnections_def)
  then have run: "contactConnection (StartConnection w) [] = Some (StartConnection w)"
    by (simp add: loopHead_def)
  have step: "contactConnectionStep clk w ev = loopBody clk w ev"
    using no lh by (simp add: contactConnectionStep_def)
  have sp: "contactConnectionStep clk w ev = Some (goOn, w') \<longrightarrow>
        spawns (effects w') = spawns (effects w)"
    unfolding step using spawns_loopBody by blast
  have ef: "effects (StartConnection w) = effects w" by (simp add: StartConnection_def)
  have only: "effects (loopHead v) \<noteq> effects v \<longrightarrow>
        shouldMakeOutboundConnections (contact v) \<and> connection (contact v) = None
        \<and> effects (loopHead v) = effects v @ [SpawnOutbound]"
    by (simp add: loopHead_def)
  show ?thesis using no lh sp st run ef only by blast
qed

theorem rejected_no_outbound_witness:
  "\<not> shouldMakeOutboundConnections (contact rejectedAgent)
   \<and> status (contact (StartConnection rejectedAgent)) = REJECTED
   \<and> connEnabled (contact (StartConnection rejectedAgent))
   \<and> contactConnection (StartConnection rejectedAgent) [] = Some (StartConnection rejectedAgent)
   \<and> effects (StartConnection rejectedAgent) = []"
proof -
  have h: "status (contact rejectedAgent) = REJECTED"
    by (simp add: rejectedAgent_def testAgent_def testContact_def)
  have e: "effects rejectedAgent = []" "connEnabled (contact (StartConnection rejectedAgent))"
    by (simp_all add: rejectedAgent_def testAgent_def testContact_def StartConnection_def)
  from rejected_no_outbound [OF h] e show ?thesis by simp
qed

subsection \<open>C8: the limits of the backlog\<close>

text \<open>
  Claim C8, amended.  After trimming, and so after every append followed by trimming, the
  backlog holds at most 200 messages.  For a length \<open>N > 200\<close> before trimming, the first
  step discards exactly the oldest \<open>N - 200\<close> messages whatever their status and recounts
  the unread total; the soft limit is then applied to the 200 messages that remain, so that
  more messages can be discarded, and the counter equals the number of UNREAD messages
  left.  A backlog without UNREAD messages holds at most 100 messages after trimming.
\<close>

theorem trimBacklog_limits:
  "length (messages (trimBacklog c)) \<le> 200
   \<and> (validateMessage c msg = None \<longrightarrow> length (messages (fst (AddMessage be c msg p))) \<le> 200)
   \<and> (200 < length (messages c) \<longrightarrow>
        messages (trimHard c) = drop (length (messages c) - 200) (messages c)
        \<and> numUnread (trimHard c)
            = int (length (filter (\<lambda>m. Status m = UNREAD) (messages (trimHard c))))
        \<and> messages (trimBacklog c)
            = drop (nat (keepIndexLoop 200 0 (messages (trimHard c)))) (messages (trimHard c))
        \<and> numUnread (trimBacklog c)
            = int (length (filter (\<lambda>m. Status m = UNREAD) (messages (trimBacklog c)))))
   \<and> (list_all (\<lambda>m. Status m \<noteq> UNREAD) (messages c) \<longrightarrow>
        length (messages (trimBacklog c)) \<le> 100)
   \<and> (list_all (\<lambda>m. Status m \<noteq> UNREAD) (messages (trimBacklog c)) \<longrightarrow>
        length (messages (trimBacklog c)) \<le> 100)"
proof (intro conjI impI)
  show "length (messages (trimBacklog c)) \<le> 200" by (rule trimBacklog_length_le)
next
  assume "validateMessage c msg = None"
  then show "length (messages (fst (AddMessage be c msg p))) \<le> 200"
    by (simp add: AddMessage_valid trimBacklog_length_le)
next
  assume "200 < length (messages c)"
  show "messages (trimHard c) = drop (length (messages c) - 200) (messages c)"
    by (rule messages_trimHard)
next
  assume "200 < length (messages c)"
  then show "numUnread (trimHard c)
      = int (length (filter (\<lambda>m. Status m = UNREAD) (messages (trimHard c))))"
    by (simp add: trimHard_def backlogHardLimit_def numUnread_recountUnread messages_recountUnread)
next
  assume "200 < length (messages c)"
  then have "length (messages (trimHard c)) = 200" by (simp add: length_messages_trimHard)
  then show "messages (trimBacklog c)
      = drop (nat (keepIndexLoop 200 0 (messages (trimHard c)))) (messages (trimHard c))"
    by (simp add: trimBacklog_def messages_trimSoft)
next
  assume "200 < length (messages c)"
  then show "numUnread (trimBacklog c)
      = int (length (filter (\<lambda>m. Status m = UNREAD) (messages (trimBacklog c))))"
    by (intro trimBacklog_numUnread) simp
next
  assume "list_all (\<lambda>m. Status m \<noteq> UNREAD) (messages c)"
  then have "list_all (\<lambda>m. Status m \<noteq> UNREAD) (messages (trimHard c))"
    unfolding messages_trimHard by (metis list_all_iff in_set_dropD)
  then show "length (messages (trimBacklog c)) \<le> 100"
    unfolding trimBacklog_def by (rule trimSoft_no_unread)
next
  assume "list_all (\<lambda>m. Status m \<noteq> UNREAD) (messages (trimBacklog c))"
  then have "list_all (\<lambda>m. Status m \<noteq> UNREAD) (messages (trimHard c))"
    by (simp add: no_unread_filter trimBacklog_def trimSoft_keeps_unread)
  then show "length (messages (trimBacklog c)) \<le> 100"
    unfolding trimBacklog_def by (rule trimSoft_no_unread)
qed

theorem trimBacklog_limits_witness:
  "length (messages (trimBacklog (unreadThenRead200\<lparr>messages := messages unreadThenRead200 @ [inboundMsg 2 READ]\<rparr>))) \<le> 200
   \<and> length (messages (fst (AddMessage None unreadThenRead200 (inboundMsg 2 READ) True))) \<le> 200
   \<and> messages (trimHard (unreadThenRead200\<lparr>messages := messages unreadThenRead200 @ [inboundMsg 2 READ]\<rparr>))
       = replicate 199 (inboundMsg 1 READ) @ [inboundMsg 2 READ]
   \<and> numUnread (trimBacklog (unreadThenRead200\<lparr>messages := messages unreadThenRead200 @ [inboundMsg 2 READ]\<rparr>)) = 0
   \<and> length (messages (trimBacklog (testConv\<lparr>messages := replicate 150 (inboundMsg 1 READ)\<rparr>))) \<le> 100"
proof -
  let ?c = "unreadThenRead200\<lparr>messages := messages unreadThenRead200 @ [inboundMsg 2 READ]\<rparr>"
  let ?d = "testConv\<lparr>messages := replicate 150 (inboundMsg 1 READ)\<rparr>"
  have h1: "validateMessage unreadThenRead200 (inboundMsg 2 READ) = None"
    by (simp add: validateMessage_def unreadThenRead200_def testConv_def inboundMsg_def
          maxMessageTextLength_def)
  have h2: "200 < length (messages ?c)"
    by (simp add: unreadThenRead200_def testConv_def)
  have h3: "list_all (\<lambda>m. Status m \<noteq> UNREAD) (messages ?d)"
    by (simp add: testConv_def inboundMsg_def list_all_iff)
  have e1: "drop (length (messages ?c) - 200) (messages ?c)
              = replicate 199 (inboundMsg 1 READ) @ [inboundMsg 2 READ]"
    by (simp add: unreadThenRead200_def testConv_def)
  have e2: "filter (\<lambda>m. Status m = UNREAD) (replicate 199 (inboundMsg 1 READ) @ [inboundMsg 2 READ]) = []"
    by (simp add: inboundMsg_def)
  have u: "filter (\<lambda>m. Status m = UNREAD) (messages (trimBacklog ?c)) = []"
    using e1 e2 h2 by (simp add: trimBacklog_def trimSoft_keeps_unread messages_trimHard)
  from trimBacklog_limits [where c = ?c and msg = "inboundMsg 2 READ" and be = None and p = True]
       trimBacklog_limits [where c = unreadThenRead200 and msg = "inboundMsg 2 READ"
                             and be = None and p = True]
       trimBacklog_limits [where c = ?d and msg = "inboundMsg 2 READ" and be = None and p = True]
       h1 h2 h3 e1 u
  show ?thesis by simp
qed

text \<open>
  The claim as stated fails: appending a READ message to a backlog of one UNREAD message
  followed by 199 READ messages gives 201 messages, of which trimming discards the oldest
  101, not exactly the oldest one.
\<close>

theorem trimBacklog_limits_counterexample:
  "validateMessage unreadThenRead200 (inboundMsg 2 READ) = None
   \<and> length (messages unreadThenRead200 @ [inboundMsg 2 READ]) = 201
   \<and> length (messages (fst (AddMessage None unreadThenRead200 (inboundMsg 2 READ) True))) = 100
   \<and> messages (fst (AddMessage None unreadThenRead200 (inboundMsg 2 READ) True))
       \<noteq> drop (201 - 200) (messages unreadThenRead200 @ [inboundMsg 2 READ])
   \<and> messages (fst (AddMessage None unreadThenRead200 (inboundMsg 2 READ) True))
       = drop 101 (messages unreadThenRead200 @ [inboundMsg 2 READ])"
  by code_simp

subsection \<open>C9: the length of the text\<close>

text \<open>
  Claim C9.  For a message with well-formed entities and a status other than NULL,
  validation succeeds exactly when the text has between 1 and 2000 bytes: it accepts a text
  of length 1 and of length 2000 and rejects, with an error, a text of length 0 and of
  length 2001.
\<close>

theorem validateMessage_text_length:
  assumes "entitiesWellFormed c msg" and "Status msg \<noteq> NULL"
  shows "(validateMessage c msg = None) = (1 \<le> length (Text msg) \<and> length (Text msg) \<le> 2000)
   \<and> (length (Text msg) = 1 \<longrightarrow> validateMessage c msg = None)
   \<and> (length (Text msg) = 2000 \<longrightarrow> validateMessage c msg = None)
   \<and> (length (Text msg) = 0 \<longrightarrow> validateMessage c msg = Some TextUnacceptable)
   \<and> (length (Text msg) = 2001 \<longrightarrow> validateMessage c msg = Some TextUnacceptable)"
proof -
  have v: "validateMessage c msg =
             (if Text msg = [] \<or> 2000 < length (Text msg) then Some TextUnacceptable else None)"
    using assms
    by (auto simp: validateMessage_def entitiesWellFormed_def maxMessageTextLength_def Let_def
             split: option.splits if_splits)
  show ?thesis unfolding v by (cases "Text msg") auto
qed

theorem validateMessage_text_length_witness:
  "validateMessage testConv ((inboundMsg 1 UNREAD)\<lparr>Text := replicate 1 CHR ''a''\<rparr>) = None
   \<and> validateMessage testConv ((inboundMsg 1 UNREAD)\<lparr>Text := replicate 2000 CHR ''a''\<rparr>) = None
   \<and> validateMessage testConv ((inboundMsg 1 UNREAD)\<lparr>Text := replicate 0 CHR ''a''\<rparr>)
       = Some TextUnacceptable
   \<and> validateMessage testConv ((outboundMsg 1 SENDING)\<lparr>Text := replicate 2001 CHR ''a''\<rparr>)
       = Some TextUnacceptable"
proof -
  have w: "entitiesWellFormed testConv ((inboundMsg 1 UNREAD)\<lparr>Text := t\<rparr>)"
          "entitiesWellFormed testConv ((outboundMsg 1 SENDING)\<lparr>Text := t\<rparr>)" for t
    by (simp_all add: entitiesWellFormed_def testConv_def inboundMsg_def outboundMsg_def)
  have s: "Status ((inboundMsg 1 UNREAD)\<lparr>Text := t\<rparr>) \<noteq> NULL"
          "Status ((outboundMsg 1 SENDING)\<lparr>Text := t\<rparr>) \<noteq> NULL" for t
    by (simp_all add: inboundMsg_def outboundMsg_def)
  from validateMessage_text_length [OF w(1) s(1), of "replicate 1 CHR ''a''"]
       validateMessage_text_length [OF w(1) s(1), of "replicate 2000 CHR ''a''"]
       validateMessage_text_length [OF w(1) s(1), of "replicate 0 CHR ''a''"]
       validateMessage_text_length [OF w(2) s(2), of "replicate 2001 CHR ''a''"]
  show ?thesis by simp
qed

subsection \<open>C10: the errors of setConnection\<close>

text \<open>
  Claim C10.  Whenever \<open>setConnection\<close> returns an error, the contact (its current
  connection, its status and its data), the persisted contacts and the effects are as
  before, also after the loop has handled the error.  When the error is the duplicate
  assignment, the candidate is the current connection and no connection is closed.
  Otherwise the candidate is not the current connection, it is closed, and no other
  connection is touched.
\<close>

theorem setConnection_error_keeps_contact:
  assumes "setConnection clk w conn = Some (Some err, w')"
  shows "\<exists>w''. loopBody clk w (ChanConn conn) = Some (True, w'')
          \<and> contact w' = contact w \<and> configContacts w' = configContacts w \<and> effects w' = effects w
          \<and> contact w'' = contact w \<and> configContacts w'' = configContacts w \<and> effects w'' = effects w
          \<and> (if err = DuplicateAssignment
              then connection (contact w'') = Some conn \<and> conns w'' = conns w
              else connection (contact w) \<noteq> Some conn \<and> Closed (conns w'' conn)
                   \<and> (\<forall>r. r \<noteq> conn \<longrightarrow> conns w'' r = conns w r))"
proof -
  from setConnection_error_cases [OF assms]
  show ?thesis
  proof
    assume "err = DuplicateAssignment \<and> connection (contact w) = Some conn \<and> w' = w"
    then show ?thesis using assms by (simp add: loopBody_def)
  next
    assume "err \<noteq> DuplicateAssignment \<and> connection (contact w) \<noteq> Some conn \<and> w' = closeConn conn w"
    then show ?thesis using assms by (simp add: loopBody_def closeConn_simps)
  qed
qed

theorem setConnection_error_keeps_contact_witness:
  "setConnection testClock duelAgent 2 = Some (Some DuplicateAssignment, duelAgent)
   \<and> (\<exists>w''. loopBody testClock duelAgent (ChanConn 2) = Some (True, w'')
          \<and> contact w'' = contact duelAgent \<and> configContacts w'' = configContacts duelAgent
          \<and> connection (contact w'') = Some 2 \<and> conns w'' = conns duelAgent)
   \<and> (\<exists>w''. loopBody testClock testAgent (ChanConn 1) = Some (True, w'')
          \<and> contact w'' = contact testAgent \<and> configContacts w'' = configContacts testAgent
          \<and> Closed (conns w'' 1))"
proof -
  have e1: "setConnection testClock duelAgent 2 = Some (Some DuplicateAssignment, duelAgent)"
    by (simp add: setConnection_def duelAgent_def testAgent_def testContact_def)
  have e2: "setConnection testClock testAgent 1 = Some (Some NotKnownContact, closeConn 1 testAgent)"
    by (simp add: setConnection_def testAgent_def testContact_def outboundConn_def noRequest_def)
  from setConnection_error_keeps_contact [OF e1] setConnection_error_keeps_contact [OF e2] e1
  show ?thesis by auto
qed

end
